theory Spec2Isabelle
  imports Main "HOL-Library.Word"
begin

section \<open>The script \<open>reshape_icon.py\<close>\<close>

text \<open>
  The repository's one source file, \<open>src/assets/images/reshape_icon.py\<close>, defines
  \<open>add_margin()\<close>: it opens \<open>Logo_Rounded.png\<close> with Pillow, computes a margin of
  \<open>int(width * 0.2)\<close> and \<open>int(height * 0.2)\<close>, allocates a transparent RGBA canvas
  enlarged by twice the margin, pastes the image onto it at the margin offset with the image
  itself as mask, saves the canvas as \<open>Logo_Rounded_with_margin.png\<close> and prints the new
  dimensions. Every exception raised on the way is caught and printed.

  The embedding has three layers: the Python arithmetic of the margin (binary64
  multiplication and truncation, written out over the naturals), the Pillow operations the
  script calls (\<open>Image.open\<close>, \<open>Image.new\<close>, \<open>Image.paste\<close>, \<open>Image.save\<close>, after
  Pillow's \<open>Image.py\<close> and \<open>libImaging/Paste.c\<close>), and the script itself, as a function
  on a world made of a file system, the standard output and the failures the environment
  may inject.
\<close>

subsection \<open>Python arithmetic: \<open>int(n * 0.2)\<close>\<close>

text \<open>
  \<open>n * 0.2\<close> with an \<open>int\<close> \<open>n\<close> converts \<open>n\<close> to a binary64 float (correctly rounded,
  \<open>OverflowError\<close> beyond the float range) and multiplies it by the double nearest to one
  fifth, which is \<open>3602879701896397 / 2 ^ 54\<close>. The product of the two doubles is rounded
  once, to 53 significant bits, ties to even. \<open>int\<close> truncates the result.

  \<open>round53 p\<close> rounds the natural number \<open>p\<close> to 53 significant bits; applied to the
  numerator of a dyadic fraction it rounds the fraction.
\<close>

fun bit_length :: "nat \<Rightarrow> nat" where
  "bit_length n = (if n = 0 then 0 else Suc (bit_length (n div 2)))"

declare bit_length.simps [simp del]

definition round53 :: "nat \<Rightarrow> nat" where
  "round53 p =
     (let n = bit_length p in
      if n \<le> 53 then p
      else
        let s = n - 53;
            q = p div 2 ^ s;
            r = p mod 2 ^ s;
            half = 2 ^ (s - 1)
        in (if half < r \<or> (r = half \<and> odd q) then q + 1 else q) * 2 ^ s)"

text \<open>The decimal digits of a non-negative \<open>int\<close>, as an f-string prints them.\<close>

fun str_int :: "nat \<Rightarrow> string" where
  "str_int n =
     (if n < 10 then [''0123456789'' ! n]
      else str_int (n div 10) @ [''0123456789'' ! (n mod 10)])"

declare str_int.simps [simp del]

text \<open>
  The exceptions the script can meet, all of them subclasses of \<open>Exception\<close>.
  \<open>DecompressionBombError\<close> carries the number of pixels of the refused image.
\<close>

datatype exn =
    FileNotFoundError string
  | IsADirectoryError string
  | PermissionError string
  | UnidentifiedImageError string
  | DecompressionBombError nat
  | OSError string
  | ValueError string
  | MemoryError
  | OverflowError string

text \<open>\<open>repr\<close> of a file name without quotes or escapes, and \<open>str(e)\<close> of an exception.\<close>

definition repr :: "string \<Rightarrow> string" where
  "repr s = [CHR 0x27] @ s @ [CHR 0x27]"

text \<open>
  \<open>Image.MAX_IMAGE_PIXELS\<close> is \<open>int(1024 * 1024 * 1024 // 4 // 3)\<close>; \<open>Image.open\<close> refuses an
  image of more than twice as many pixels.
\<close>

definition MAX_IMAGE_PIXELS :: nat where
  "MAX_IMAGE_PIXELS = 1024 * 1024 * 1024 div 4 div 3"

fun str :: "exn \<Rightarrow> string" where
  "str (FileNotFoundError f) = ''[Errno 2] No such file or directory: '' @ repr f"
| "str (IsADirectoryError f) = ''[Errno 21] Is a directory: '' @ repr f"
| "str (PermissionError f) = ''[Errno 13] Permission denied: '' @ repr f"
| "str (UnidentifiedImageError f) = ''cannot identify image file '' @ repr f"
| "str (DecompressionBombError n) =
     ''Image size ('' @ str_int n @ '' pixels) exceeds limit of ''
     @ str_int (2 * MAX_IMAGE_PIXELS) @ '' pixels, could be decompression bomb DOS attack.''"
| "str (OSError m) = m"
| "str (ValueError m) = m"
| "str MemoryError = []"
| "str (OverflowError m) = m"

definition float_of_int :: "nat \<Rightarrow> exn + nat" where
  "float_of_int n =
     (let f = round53 n in
      if 2 ^ 1024 \<le> f then Inl (OverflowError ''int too large to convert to float'')
      else Inr f)"

definition int_mul_0_2 :: "nat \<Rightarrow> exn + nat" where
  "int_mul_0_2 n =
     (case float_of_int n of
        Inl e \<Rightarrow> Inl e
      | Inr f \<Rightarrow> Inr (round53 (f * 3602879701896397) div 2 ^ 54))"

subsection \<open>Pillow images\<close>

text \<open>
  A pixel of a 32-bit image is four bytes; for mode RGB the fourth byte is padding. An image
  object carries its mode, its size and its rows of pixels (\<open>image[y][x]\<close> in
  \<open>libImaging\<close>). \<open>Image.open\<close> reads the header only; the pixel data is decoded by
  \<open>load()\<close>, which raises \<open>load_error\<close> when the data stream is damaged. The model covers
  the modes RGBA and RGB.
\<close>

type_synonym pixel = "8 word \<times> 8 word \<times> 8 word \<times> 8 word"

datatype mode = RGBA | RGB

record image =
  mode :: mode
  xsize :: nat
  ysize :: nat
  pixels :: "pixel list list"
  load_error :: "exn option"

definition load :: "image \<Rightarrow> exn + image" where
  "load im = (case load_error im of Some e \<Rightarrow> Inl e | None \<Rightarrow> Inr im)"

text \<open>\<open>im.convert(m)\<close> between the two modes: RGB gains an opaque alpha, RGBA loses its
  alpha (the padding byte of RGB is 255).\<close>

definition convert :: "image \<Rightarrow> mode \<Rightarrow> image" where
  "convert im m =
     (if mode im = m then im
      else im\<lparr>mode := m, pixels := map (map (\<lambda>(r, g, b, a). (r, g, b, 255))) (pixels im)\<rparr>)"

subsection \<open>\<open>libImaging/Paste.c\<close>\<close>

text \<open>
  \<open>DIV255(a, tmp)\<close> is \<open>(tmp = a + 128, ((tmp >> 8) + tmp) >> 8)\<close> and
  \<open>BLEND(mask, in1, in2, tmp)\<close> is \<open>DIV255(in1 * (255 - mask) + in2 * mask, tmp)\<close>, computed
  in \<open>unsigned int\<close> and stored in a \<open>UINT8\<close>.
\<close>

definition DIV255 :: "nat \<Rightarrow> nat" where
  "DIV255 a = (let tmp = a + 128 in (tmp div 256 + tmp) div 256)"

definition BLEND :: "8 word \<Rightarrow> 8 word \<Rightarrow> 8 word \<Rightarrow> 8 word" where
  "BLEND msk in1 in2 = of_nat (DIV255 (unat in1 * (255 - unat msk) + unat in2 * unat msk))"

fun alpha :: "pixel \<Rightarrow> 8 word" where
  "alpha (r, g, b, a) = a"

text \<open>The innermost loop of \<open>paste_mask_RGBA\<close>, over the four bytes of one pixel.\<close>

fun blend_pixel :: "8 word \<Rightarrow> pixel \<Rightarrow> pixel \<Rightarrow> pixel" where
  "blend_pixel m (o0, o1, o2, o3) (i0, i1, i2, i3) =
     (BLEND m o0 i0, BLEND m o1 i1, BLEND m o2 i2, BLEND m o3 i3)"

text \<open>
  \<open>paste_mask_RGBA\<close>: for \<open>y < ysize\<close> and \<open>x < xsize\<close>, the pixel of \<open>imOut\<close> at
  \<open>(x + dx, y + dy)\<close> is blended with the pixel of \<open>imIn\<close> at \<open>(x + sx, y + sy)\<close>, the mask
  value being byte 3 of the pixel of \<open>imMask\<close> at \<open>(x + sx, y + sy)\<close>.
\<close>

definition paste_mask_row ::
  "pixel list \<Rightarrow> pixel list \<Rightarrow> pixel list \<Rightarrow> nat \<Rightarrow> nat \<Rightarrow> nat \<Rightarrow> pixel list" where
  "paste_mask_row out inp msk dx sx xs =
     fold (\<lambda>x row. row[x + dx := blend_pixel (alpha (msk ! (x + sx))) (row ! (x + dx)) (inp ! (x + sx))])
       [0..<xs] out"

definition paste_mask_RGBA ::
  "image \<Rightarrow> image \<Rightarrow> image \<Rightarrow> nat \<Rightarrow> nat \<Rightarrow> nat \<Rightarrow> nat \<Rightarrow> nat \<Rightarrow> nat \<Rightarrow> image" where
  "paste_mask_RGBA imOut imIn imMask dx dy sx sy xs ys =
     imOut\<lparr>pixels :=
       fold (\<lambda>y rows. rows[y + dy :=
               paste_mask_row (rows ! (y + dy)) (pixels imIn ! (y + sy)) (pixels imMask ! (y + sy))
                 dx sx xs])
         [0..<ys] (pixels imOut)\<rparr>"

text \<open>
  \<open>ImagingPaste(imOut, imIn, imMask, dx0, dy0, dx1, dy1)\<close>. The box must have the size of
  \<open>imIn\<close> and of \<open>imMask\<close>; it is clipped to \<open>imOut\<close>; an empty region returns at once,
  before the mode of the mask is looked at. The offsets the script passes are never
  negative, so the box is a box of naturals and the source offset stays \<open>(0, 0)\<close>. Both
  modes have four bytes per pixel, so the pixel sizes always agree.
\<close>

definition ImagingPaste ::
  "image \<Rightarrow> image \<Rightarrow> image \<Rightarrow> nat \<times> nat \<times> nat \<times> nat \<Rightarrow> exn + image" where
  "ImagingPaste imOut imIn imMask box =
     (case box of (dx0, dy0, dx1, dy1) \<Rightarrow>
        if dx1 < dx0 \<or> dy1 < dy0 \<or> dx1 - dx0 \<noteq> xsize imIn \<or> dy1 - dy0 \<noteq> ysize imIn
        then Inl (ValueError ''images do not match'')
        else if dx1 - dx0 \<noteq> xsize imMask \<or> dy1 - dy0 \<noteq> ysize imMask
        then Inl (ValueError ''images do not match'')
        else
          let xs = (if dx0 + (dx1 - dx0) > xsize imOut then xsize imOut - dx0 else dx1 - dx0);
              ys = (if dy0 + (dy1 - dy0) > ysize imOut then ysize imOut - dy0 else dy1 - dy0)
          in if xs = 0 \<or> ys = 0 then Inr imOut
             else (case mode imMask of
                     RGBA \<Rightarrow> Inr (paste_mask_RGBA imOut imIn imMask dx0 dy0 0 0 xs ys)
                   | RGB \<Rightarrow> Inl (ValueError ''bad transparency mask'')))"

subsection \<open>\<open>PIL/Image.py\<close>\<close>

text \<open>
  \<open>self.paste(im, box, mask)\<close> with a two-item box: the box is completed with the size of
  \<open>im\<close>; \<open>im\<close> is loaded and, when its mode differs from that of \<open>self\<close> (unless \<open>self\<close> is
  RGB and \<open>im\<close> is RGBA), converted to it; \<open>self\<close> and the mask are loaded; the core pastes.
  The mask is never converted.
\<close>

definition paste :: "image \<Rightarrow> image \<Rightarrow> nat \<times> nat \<Rightarrow> image \<Rightarrow> exn + image" where
  "paste self im box msk =
     (case box of (x0, y0) \<Rightarrow>
        let box4 = (x0, y0, x0 + xsize im, y0 + ysize im) in
        case load im of
          Inl e \<Rightarrow> Inl e
        | Inr im \<Rightarrow>
            let im = (if mode self \<noteq> mode im \<and> (mode self \<noteq> RGB \<or> mode im \<noteq> RGBA)
                      then convert im (mode self) else im)
            in case load self of
                 Inl e \<Rightarrow> Inl e
               | Inr self \<Rightarrow>
                   (case load msk of
                      Inl e \<Rightarrow> Inl e
                    | Inr msk \<Rightarrow> ImagingPaste self im msk box4))"

subsection \<open>The world of the script\<close>

text \<open>
  A path holds a directory, a file that may not be read, a file that is not an image, or an
  image file (PNG is lossless, so a saved image is read back as it was). The world is the
  file system and the lines printed so far, together with what the environment decides:
  \<open>new_error\<close> says whether allocating an image of a given size fails (\<open>MemoryError\<close>, a
  size beyond a C \<open>int\<close>), and \<open>save_error\<close> whether writing to a path fails, and what is
  then left at that path.
\<close>

datatype file_data = Directory | Unreadable | NotAnImage | ImageFile image

record world =
  files :: "string \<rightharpoonup> file_data"
  stdout :: "string list"
  new_error :: "nat \<times> nat \<Rightarrow> exn option"
  save_error :: "string \<Rightarrow> (exn \<times> file_data option) option"

text \<open>
  \<open>Image.open(fp)\<close> opens the file (\<open>builtins.open(fp, "rb")\<close>) and lets the plugins
  identify it. A plugin that reads a size that is not positive gives up (\<open>not identified
  by this driver\<close>), so such a file is not identified. \<open>_decompression_bomb_check\<close> then
  refuses an image of more than \<open>2 * MAX_IMAGE_PIXELS\<close> pixels; between one and two times
  the limit it only warns, on the standard error stream.
\<close>

definition decompression_bomb_check :: "nat \<times> nat \<Rightarrow> exn option" where
  "decompression_bomb_check sz =
     (let pixels = max 1 (fst sz) * max 1 (snd sz) in
      if pixels > 2 * MAX_IMAGE_PIXELS then Some (DecompressionBombError pixels) else None)"

definition Image_open :: "world \<Rightarrow> string \<Rightarrow> exn + image" where
  "Image_open w fp =
     (case files w fp of
        None \<Rightarrow> Inl (FileNotFoundError fp)
      | Some Directory \<Rightarrow> Inl (IsADirectoryError fp)
      | Some Unreadable \<Rightarrow> Inl (PermissionError fp)
      | Some NotAnImage \<Rightarrow> Inl (UnidentifiedImageError fp)
      | Some (ImageFile im) \<Rightarrow>
          if xsize im = 0 \<or> ysize im = 0 then Inl (UnidentifiedImageError fp)
          else (case decompression_bomb_check (xsize im, ysize im) of
                  Some e \<Rightarrow> Inl e
                | None \<Rightarrow> Inr im))"

definition Image_new :: "world \<Rightarrow> mode \<Rightarrow> nat \<times> nat \<Rightarrow> pixel \<Rightarrow> exn + image" where
  "Image_new w m sz color =
     (case new_error w sz of
        Some e \<Rightarrow> Inl e
      | None \<Rightarrow>
          Inr \<lparr>mode = m, xsize = fst sz, ysize = snd sz,
               pixels = replicate (snd sz) (replicate (fst sz) color), load_error = None\<rparr>)"

definition save :: "world \<Rightarrow> image \<Rightarrow> string \<Rightarrow> (exn + unit) \<times> world" where
  "save w im fp =
     (case load im of
        Inl e \<Rightarrow> (Inl e, w)
      | Inr im \<Rightarrow>
          (case save_error w fp of
             Some (e, left) \<Rightarrow> (Inl e, w\<lparr>files := (files w)(fp := left)\<rparr>)
           | None \<Rightarrow> (Inr (), w\<lparr>files := (files w)(fp \<mapsto> ImageFile im)\<rparr>)))"

definition print :: "string \<Rightarrow> world \<Rightarrow> world" where
  "print line w = w\<lparr>stdout := stdout w @ [line]\<rparr>"

subsection \<open>\<open>add_margin\<close>\<close>

text \<open>
  The source:
  \<^verbatim>\<open>
  def add_margin():
      try:
          img = Image.open('Logo_Rounded.png')
          width, height = img.size
          margin_w = int(width * 0.2)
          margin_h = int(height * 0.2)
          new_width = width + (2 * margin_w)
          new_height = height + (2 * margin_h)
          new_img = Image.new('RGBA', (new_width, new_height), (0, 0, 0, 0))
          new_img.paste(img, (margin_w, margin_h), img)
          new_img.save('Logo_Rounded_with_margin.png', quality=95)
          print(f'Created new image with dimensions {new_width}x{new_height}')
      except Exception as e:
          print(f'Error processing image: {e}')
  \<close>
  \<open>add_margin_try\<close> is the body of the \<open>try\<close>: the exception it raises, if any, and the
  world it leaves. The PNG writer ignores \<open>quality\<close>.
\<close>

definition add_margin_try :: "world \<Rightarrow> (exn + unit) \<times> world" where
  "add_margin_try w =
     (case Image_open w ''Logo_Rounded.png'' of
        Inl e \<Rightarrow> (Inl e, w)
      | Inr img \<Rightarrow>
          let width = xsize img; height = ysize img in
          case int_mul_0_2 width of
            Inl e \<Rightarrow> (Inl e, w)
          | Inr margin_w \<Rightarrow>
              (case int_mul_0_2 height of
                 Inl e \<Rightarrow> (Inl e, w)
               | Inr margin_h \<Rightarrow>
                   let new_width = width + 2 * margin_w;
                       new_height = height + 2 * margin_h
                   in case Image_new w RGBA (new_width, new_height) (0, 0, 0, 0) of
                        Inl e \<Rightarrow> (Inl e, w)
                      | Inr new_img \<Rightarrow>
                          (case paste new_img img (margin_w, margin_h) img of
                             Inl e \<Rightarrow> (Inl e, w)
                           | Inr new_img \<Rightarrow>
                               (case save w new_img ''Logo_Rounded_with_margin.png'' of
                                  (Inl e, w') \<Rightarrow> (Inl e, w')
                                | (Inr u, w') \<Rightarrow>
                                    (Inr (),
                                     print (''Created new image with dimensions ''
                                            @ str_int new_width @ ''x'' @ str_int new_height) w')))))"

text \<open>\<open>except Exception as e\<close>: the exception is printed and the function returns.\<close>

definition add_margin :: "world \<Rightarrow> world" where
  "add_margin w =
     (case add_margin_try w of
        (Inl e, w') \<Rightarrow> print (''Error processing image: '' @ str e) w'
      | (Inr u, w') \<Rightarrow> w')"

subsection \<open>Observations and inputs\<close>

text \<open>The shape of a decoded image: \<open>ysize\<close> rows of \<open>xsize\<close> pixels each.\<close>

definition well_formed :: "image \<Rightarrow> bool" where
  "well_formed im \<longleftrightarrow>
     length (pixels im) = ysize im \<and> list_all (\<lambda>row. length row = xsize im) (pixels im)"

text \<open>
  A valid input: the file \<open>Logo_Rounded.png\<close> holds an intact RGBA image that
  \<open>Image.open\<close> accepts, with positive sides and at most \<open>2 * MAX_IMAGE_PIXELS\<close>, that is
  178956970, pixels.
\<close>

definition valid_input :: "world \<Rightarrow> image \<Rightarrow> bool" where
  "valid_input w img \<longleftrightarrow>
     files w ''Logo_Rounded.png'' = Some (ImageFile img) \<and> mode img = RGBA \<and>
     load_error img = None \<and> well_formed img \<and> 0 < xsize img \<and> 0 < ysize img \<and>
     xsize img * ysize img \<le> 178956970"

text \<open>The image found at the destination path, if there is one.\<close>

definition saved_image :: "world \<Rightarrow> image option" where
  "saved_image w =
     (case files w ''Logo_Rounded_with_margin.png'' of
        Some (ImageFile im) \<Rightarrow> Some im
      | _ \<Rightarrow> None)"

text \<open>\<open>im.getpixel((x, y))\<close>.\<close>

definition getpixel :: "image \<Rightarrow> nat \<times> nat \<Rightarrow> pixel" where
  "getpixel im xy = pixels im ! snd xy ! fst xy"

text \<open>The canvas \<open>Image.new('RGBA', (nw, nh), (0, 0, 0, 0))\<close> returns.\<close>

definition canvas :: "nat \<Rightarrow> nat \<Rightarrow> image" where
  "canvas nw nh = \<lparr>mode = RGBA, xsize = nw, ysize = nh,
     pixels = replicate nh (replicate nw (0, 0, 0, 0)), load_error = None\<rparr>"

text \<open>
  Running the script on its own output: the saved file takes the place of the source
  file. \<open>rerun n\<close> runs the script, and then \<open>n\<close> more times on its own output.
\<close>

definition feed_back :: "world \<Rightarrow> world" where
  "feed_back w =
     w\<lparr>files := (files w)(''Logo_Rounded.png'' := files w ''Logo_Rounded_with_margin.png'')\<rparr>"

fun rerun :: "nat \<Rightarrow> world \<Rightarrow> world" where
  "rerun 0 w = add_margin w"
| "rerun (Suc n) w = add_margin (feed_back (rerun n w))"

text \<open>
  The side the script computes from a side \<open>s\<close>, \<open>s + 2 * int(s * 0.2)\<close>, with the margin
  written as \<open>s div 5\<close> (the two are proved equal below).
\<close>

definition enlarged :: "nat \<Rightarrow> nat" where
  "enlarged s = s + 2 * (s div 5)"

text \<open>
  Test inputs: an image of one colour, and the world that holds it as \<open>Logo_Rounded.png\<close>
  and nothing else, where no allocation and no write fails.
\<close>

definition solid :: "mode \<Rightarrow> nat \<Rightarrow> nat \<Rightarrow> pixel \<Rightarrow> image" where
  "solid m w h p = \<lparr>mode = m, xsize = w, ysize = h,
     pixels = replicate h (replicate w p), load_error = None\<rparr>"

text \<open>A one-row image with the given pixels.\<close>

definition strip :: "pixel list \<Rightarrow> image" where
  "strip ps = \<lparr>mode = RGBA, xsize = length ps, ysize = 1, pixels = [ps], load_error = None\<rparr>"

definition world_with :: "image \<Rightarrow> world" where
  "world_with img = \<lparr>files = [''Logo_Rounded.png'' \<mapsto> ImageFile img], stdout = [],
     new_error = (\<lambda>sz. None), save_error = (\<lambda>fp. None)\<rparr>"

section \<open>Properties\<close>

subsection \<open>Blending\<close>

text \<open>A mask byte of 255 copies the source byte, a mask byte of 0 keeps the destination.\<close>

lemma DIV255_mul255: "n < 256 \<Longrightarrow> DIV255 (n * 255) = n"
  unfolding DIV255_def Let_def by arith

lemma unat_byte_less: "unat (b :: 8 word) < 256"
  using unsigned_less [of b, where 'a = nat] by simp

lemma BLEND_opaque: "BLEND 255 a b = b"
  by (simp add: BLEND_def DIV255_mul255 unat_byte_less)

lemma BLEND_clear: "BLEND 0 a b = a"
  by (simp add: BLEND_def DIV255_mul255 unat_byte_less)



subsection \<open>The loops of \<open>paste_mask_RGBA\<close>\<close>

text \<open>
  Both loops have the same shape: step \<open>i\<close> rewrites position \<open>i + d\<close>, from the value
  found there. After \<open>n\<close> steps the positions \<open>d \<le> j < d + n\<close> are rewritten once each and
  the others are as before.
\<close>

lemma fold_update_length:
  "length (fold (\<lambda>i ys. ys[i + d := f i (ys ! (i + d))]) [0..<n] xs) = length xs"
  by (induction n) simp_all

lemma fold_update_nth:
  "j < length xs \<Longrightarrow>
   fold (\<lambda>i ys. ys[i + d := f i (ys ! (i + d))]) [0..<n] xs ! j =
     (if d \<le> j \<and> j < d + n then f (j - d) (xs ! j) else xs ! j)"
proof (induction n)
  case 0
  then show ?case by auto
next
  case (Suc n)
  let ?ys = "fold (\<lambda>i ys. ys[i + d := f i (ys ! (i + d))]) [0..<n] xs"
  have len: "length ?ys = length xs" by (rule fold_update_length)
  show ?case
  proof (cases "j = n + d")
    case True
    with Suc have "?ys ! j = xs ! j" by simp
    with True Suc.prems len show ?thesis by simp
  next
    case False
    with Suc len show ?thesis by (auto simp: nth_list_update)
  qed
qed

lemma paste_mask_row_length: "length (paste_mask_row out inp msk dx sx n) = length out"
  unfolding paste_mask_row_def by (rule fold_update_length)

lemma paste_mask_row_nth:
  "j < length out \<Longrightarrow>
   paste_mask_row out inp msk dx sx n ! j =
     (if dx \<le> j \<and> j < dx + n
      then blend_pixel (alpha (msk ! (j - dx + sx))) (out ! j) (inp ! (j - dx + sx))
      else out ! j)"
  unfolding paste_mask_row_def
  by (rule fold_update_nth [where f = "\<lambda>x p. blend_pixel (alpha (msk ! (x + sx))) p (inp ! (x + sx))"])

lemma well_formed_row: "well_formed im \<Longrightarrow> y < ysize im \<Longrightarrow> length (pixels im ! y) = xsize im"
  by (simp add: well_formed_def list_all_length)

lemma paste_mask_RGBA_fields:
  "mode (paste_mask_RGBA imOut imIn imMask dx dy sx sy xs ys) = mode imOut"
  "xsize (paste_mask_RGBA imOut imIn imMask dx dy sx sy xs ys) = xsize imOut"
  "ysize (paste_mask_RGBA imOut imIn imMask dx dy sx sy xs ys) = ysize imOut"
  "load_error (paste_mask_RGBA imOut imIn imMask dx dy sx sy xs ys) = load_error imOut"
  by (simp_all add: paste_mask_RGBA_def)

lemma paste_mask_RGBA_length:
  "length (pixels (paste_mask_RGBA imOut imIn imMask dx dy sx sy xs ys)) = length (pixels imOut)"
  unfolding paste_mask_RGBA_def
  by (simp add: fold_update_length [where f = "\<lambda>y r. paste_mask_row r (pixels imIn ! (y + sy)) (pixels imMask ! (y + sy)) dx sx xs"])

lemma paste_mask_RGBA_row:
  assumes "y < length (pixels imOut)"
  shows "pixels (paste_mask_RGBA imOut imIn imMask dx dy sx sy xs ys) ! y =
     (if dy \<le> y \<and> y < dy + ys
      then paste_mask_row (pixels imOut ! y) (pixels imIn ! (y - dy + sy))
             (pixels imMask ! (y - dy + sy)) dx sx xs
      else pixels imOut ! y)"
proof -
  show ?thesis
    unfolding paste_mask_RGBA_def
    using fold_update_nth [OF assms, where f = "\<lambda>y r. paste_mask_row r (pixels imIn ! (y + sy)) (pixels imMask ! (y + sy)) dx sx xs" and d = dy and n = ys]
    by simp
qed

lemma paste_mask_RGBA_well_formed:
  assumes "well_formed imOut"
  shows "well_formed (paste_mask_RGBA imOut imIn imMask dx dy sx sy xs ys)"
proof -
  let ?r = "paste_mask_RGBA imOut imIn imMask dx dy sx sy xs ys"
  have len: "length (pixels ?r) = ysize imOut"
    using assms by (simp add: paste_mask_RGBA_length well_formed_def)
  have "length (pixels ?r ! y) = xsize imOut" if "y < ysize imOut" for y
  proof -
    from that assms have "y < length (pixels imOut)" by (simp add: well_formed_def)
    then show ?thesis
      using well_formed_row [OF assms that]
      by (simp add: paste_mask_RGBA_row paste_mask_row_length)
  qed
  with len show ?thesis
    by (simp add: well_formed_def list_all_length paste_mask_RGBA_fields)
qed

lemma paste_mask_RGBA_pixel:
  assumes wf: "well_formed imOut" and y: "y < ysize imOut" and x: "x < xsize imOut"
  shows "pixels (paste_mask_RGBA imOut imIn imMask dx dy sx sy xs ys) ! y ! x =
     (if dy \<le> y \<and> y < dy + ys \<and> dx \<le> x \<and> x < dx + xs
      then blend_pixel (alpha (pixels imMask ! (y - dy + sy) ! (x - dx + sx)))
             (pixels imOut ! y ! x) (pixels imIn ! (y - dy + sy) ! (x - dx + sx))
      else pixels imOut ! y ! x)"
proof -
  from wf y have ylen: "y < length (pixels imOut)" by (simp add: well_formed_def)
  from wf y x have xlen: "x < length (pixels imOut ! y)" by (simp add: well_formed_row)
  show ?thesis
    by (simp add: paste_mask_RGBA_row [OF ylen] paste_mask_row_nth [OF xlen])
qed

subsection \<open>Pasting onto the canvas\<close>

lemma canvas_well_formed: "well_formed (canvas nw nh)"
  by (simp add: canvas_def well_formed_def list_all_length)

lemma canvas_pixel: "x < nw \<Longrightarrow> y < nh \<Longrightarrow> pixels (canvas nw nh) ! y ! x = (0, 0, 0, 0)"
  by (simp add: canvas_def)

lemma canvas_fields:
  "mode (canvas nw nh) = RGBA" "xsize (canvas nw nh) = nw" "ysize (canvas nw nh) = nh"
  "load_error (canvas nw nh) = None"
  by (simp_all add: canvas_def)

lemma paste_canvas:
  assumes m: "mode img = RGBA" and l: "load_error img = None"
  shows "\<exists>out. paste (canvas (xsize img + 2 * mw) (ysize img + 2 * mh)) img (mw, mh) img = Inr out
     \<and> mode out = RGBA \<and> xsize out = xsize img + 2 * mw \<and> ysize out = ysize img + 2 * mh
     \<and> load_error out = None \<and> well_formed out
     \<and> (\<forall>x y. x < xsize out \<longrightarrow> y < ysize out \<longrightarrow>
          pixels out ! y ! x =
            (if mh \<le> y \<and> y < mh + ysize img \<and> mw \<le> x \<and> x < mw + xsize img
             then blend_pixel (alpha (pixels img ! (y - mh) ! (x - mw))) (0, 0, 0, 0)
                    (pixels img ! (y - mh) ! (x - mw))
             else (0, 0, 0, 0)))"
proof -
  let ?c = "canvas (xsize img + 2 * mw) (ysize img + 2 * mh)"
  have p: "paste ?c img (mw, mh) img =
      (if xsize img = 0 \<or> ysize img = 0 then Inr ?c
       else Inr (paste_mask_RGBA ?c img img mw mh 0 0 (xsize img) (ysize img)))"
    using m l by (simp add: paste_def load_def canvas_fields ImagingPaste_def Let_def)
  show ?thesis
  proof (cases "xsize img = 0 \<or> ysize img = 0")
    case True
    with p have "paste ?c img (mw, mh) img = Inr ?c" by simp
    moreover have "\<forall>x y. x < xsize ?c \<longrightarrow> y < ysize ?c \<longrightarrow>
          pixels ?c ! y ! x =
            (if mh \<le> y \<and> y < mh + ysize img \<and> mw \<le> x \<and> x < mw + xsize img
             then blend_pixel (alpha (pixels img ! (y - mh) ! (x - mw))) (0, 0, 0, 0)
                    (pixels img ! (y - mh) ! (x - mw))
             else (0, 0, 0, 0))"
      using True by (auto simp: canvas_fields canvas_pixel)
    ultimately show ?thesis
      by (simp add: canvas_fields canvas_well_formed)
  next
    case False
    let ?r = "paste_mask_RGBA ?c img img mw mh 0 0 (xsize img) (ysize img)"
    from False p have "paste ?c img (mw, mh) img = Inr ?r" by simp
    moreover have "well_formed ?r"
      by (rule paste_mask_RGBA_well_formed [OF canvas_well_formed])
    moreover have "\<forall>x y. x < xsize ?r \<longrightarrow> y < ysize ?r \<longrightarrow>
          pixels ?r ! y ! x =
            (if mh \<le> y \<and> y < mh + ysize img \<and> mw \<le> x \<and> x < mw + xsize img
             then blend_pixel (alpha (pixels img ! (y - mh) ! (x - mw))) (0, 0, 0, 0)
                    (pixels img ! (y - mh) ! (x - mw))
             else (0, 0, 0, 0))"
      by (simp add: paste_mask_RGBA_fields canvas_fields canvas_pixel
          paste_mask_RGBA_pixel [OF canvas_well_formed])
    ultimately show ?thesis
      by (simp add: paste_mask_RGBA_fields canvas_fields)
  qed
qed

subsection \<open>The margin arithmetic\<close>

text \<open>
  Five times the double nearest to one fifth is \<open>1 + 2 ^ - 54\<close>, so the exact product
  \<open>n * 0.2\<close> lies above \<open>n / 5\<close> by \<open>n / (5 * 2 ^ 54)\<close>. Rounding to 53 bits moves it by at
  most half a unit in the last place. For \<open>n < 2 ^ 52\<close> neither amount carries the product
  across an integer, and truncation gives \<open>n div 5\<close>.
\<close>

lemma bit_length_le: "n < 2 ^ k \<Longrightarrow> bit_length n \<le> k"
proof (induction n arbitrary: k rule: bit_length.induct)
  case (1 n)
  show ?case
  proof (cases "n = 0")
    case True
    then show ?thesis by (simp add: bit_length.simps)
  next
    case False
    with "1.prems" obtain j where k: "k = Suc j" by (cases k) auto
    with "1.prems" have "n div 2 < 2 ^ j" by auto
    with 1 False have "bit_length (n div 2) \<le> j" by blast
    with False k show ?thesis by (simp add: bit_length.simps [of n])
  qed
qed

lemma round53_small: "p < 2 ^ 53 \<Longrightarrow> round53 p = p"
  using bit_length_le [of p 53] by (simp add: round53_def)

lemma round_step_bounds:
  fixes p d h :: nat
  assumes d: "d = 2 * h" and h: "0 < h"
  defines "R \<equiv> (if h < p mod d \<or> (p mod d = h \<and> odd (p div d)) then p div d + 1 else p div d) * d"
  shows "(p div d) * d \<le> R" and "R \<le> p + h" and "d dvd R"
proof -
  show "(p div d) * d \<le> R" by (simp add: R_def)
  show "d dvd R" by (simp add: R_def)
  have p: "p = (p div d) * d + p mod d" by simp
  show "R \<le> p + h"
  proof (cases "h < p mod d \<or> (p mod d = h \<and> odd (p div d))")
    case True
    then have "h \<le> p mod d" by auto
    moreover from True have "R = (p div d) * d + d" by (simp add: R_def)
    ultimately show ?thesis using p d by linarith
  next
    case False
    then have "R = (p div d) * d" by (auto simp add: R_def)
    then show ?thesis using p by linarith
  qed
qed

lemma round53_bounds:
  assumes big: "p < 2 ^ 104" and lo: "a * 2 ^ 54 \<le> p" and hi: "p + 2 ^ 50 < (a + 1) * 2 ^ 54"
  shows "round53 p div 2 ^ 54 = a"
proof (cases "bit_length p \<le> 53")
  case True
  then have "round53 p = p" by (simp add: round53_def)
  moreover from lo hi have "p div 2 ^ 54 = a"
    by (intro div_nat_eqI) (simp_all add: mult.commute)
  ultimately show ?thesis by simp
next
  case False
  define s where "s = bit_length p - 53"
  define d :: nat where "d = 2 ^ s"
  define h :: nat where "h = 2 ^ (s - 1)"
  define R where "R = (if h < p mod d \<or> (p mod d = h \<and> odd (p div d)) then p div d + 1 else p div d) * d"
  from False have s1: "1 \<le> s" by (simp add: s_def)
  from big have "bit_length p \<le> 104" by (rule bit_length_le)
  then have s51: "s \<le> 51" by (simp add: s_def)
  from s1 have dh: "d = 2 * h" unfolding d_def h_def by (cases s) simp_all
  have h0: "0 < h" by (simp add: h_def)
  have "s - 1 \<le> 50" using s51 by simp
  then have "(2::nat) ^ (s - 1) \<le> 2 ^ 50" by (rule power_increasing) simp
  then have h50: "h \<le> 2 ^ 50" by (simp add: h_def)
  have RR: "round53 p = R" using False
    by (simp add: round53_def Let_def R_def d_def h_def s_def)
  have b1: "(p div d) * d \<le> R" and b2: "R \<le> p + h" and b3: "d dvd R"
    unfolding R_def by (rule round_step_bounds [OF dh h0])+
  have "s \<le> 54" using s51 by simp
  then have "(2::nat) ^ s dvd 2 ^ 54" by (rule le_imp_power_dvd)
  then have "d dvd a * 2 ^ 54" by (simp add: d_def)
  then obtain m where m: "a * 2 ^ 54 = m * d" by (auto simp: dvd_def mult.commute)
  have d0: "0 < d" by (simp add: d_def)
  from lo m have "m * d \<le> p" by simp
  then have "m \<le> p div d" using d0 by (simp add: less_eq_div_iff_mult_less_eq)
  then have "m * d \<le> (p div d) * d" by simp
  with b1 m have lo': "a * 2 ^ 54 \<le> R" by linarith
  from b2 h50 hi have hi': "R < (a + 1) * 2 ^ 54" by linarith
  from lo' hi' have "R div 2 ^ 54 = a"
    by (intro div_nat_eqI) (simp_all add: mult.commute)
  with RR show ?thesis by simp
qed

lemma float_of_int_small: "n < 2 ^ 53 \<Longrightarrow> float_of_int n = Inr n"
  by (simp add: float_of_int_def round53_small)

lemma mul_fifth_less:
  fixes n :: nat
  assumes "n < 2 ^ 52"
  shows "n * 3602879701896397 < 2 ^ 104"
proof -
  have "n * 3602879701896397 < 2 ^ 52 * (3602879701896397::nat)"
    using assms by (rule mult_strict_right_mono) simp
  also have "\<dots> < 2 ^ 104" by simp
  finally show ?thesis .
qed

lemma mul_fifth_lower:
  fixes n a p :: nat
  assumes five: "5 * p = n * 2 ^ 54 + n" and n: "n = 5 * a + j"
  shows "a * 2 ^ 54 \<le> p"
proof -
  have "5 * a \<le> n" using n by simp
  then have "(5 * a) * 2 ^ 54 \<le> n * 2 ^ 54" by (rule mult_le_mono1)
  also have "\<dots> \<le> 5 * p" using five by simp
  finally show ?thesis by simp
qed

lemma mul_fifth_upper:
  fixes n a p :: nat
  assumes five: "5 * p = n * 2 ^ 54 + n" and n: "n = 5 * a + j" and j: "j < 5"
    and small: "n < 2 ^ 52"
  shows "p + 2 ^ 50 < (a + 1) * 2 ^ 54"
proof -
  have "n \<le> 5 * a + 4" using n j by simp
  then have "n * 2 ^ 54 \<le> (5 * a + 4) * 2 ^ 54" by (rule mult_le_mono1)
  then have "5 * (p + 2 ^ 50) \<le> (5 * a + 4) * 2 ^ 54 + n + 5 * 2 ^ 50"
    using five by simp
  also have "\<dots> < 5 * ((a + 1) * 2 ^ 54)" using small by (simp add: algebra_simps)
  finally show ?thesis by simp
qed

lemma int_mul_0_2_div5:
  assumes "n < 2 ^ 52"
  shows "int_mul_0_2 n = Inr (n div 5)"
proof -
  from assms have "n < 2 ^ 53" by simp
  then have f: "float_of_int n = Inr n" by (rule float_of_int_small)
  define a where "a = n div 5"
  define p where "p = n * 3602879701896397"
  have n: "n = 5 * a + n mod 5" by (simp add: a_def)
  have j: "n mod 5 < 5" by simp
  have five: "5 * p = n * 2 ^ 54 + n" by (simp add: p_def)
  have big: "p < 2 ^ 104" unfolding p_def using assms by (rule mul_fifth_less)
  have lo: "a * 2 ^ 54 \<le> p" using five n by (rule mul_fifth_lower)
  have hi: "p + 2 ^ 50 < (a + 1) * 2 ^ 54" using five n j assms by (rule mul_fifth_upper)
  have "round53 p div 2 ^ 54 = a" by (rule round53_bounds [OF big lo hi])
  with f show ?thesis by (simp add: int_mul_0_2_def p_def a_def)
qed

subsection \<open>Opening the source\<close>

text \<open>
  \<open>Image.open\<close> accepts an image file with positive sides and at most 178956970 pixels;
  each side of such an image is far below \<open>2 ^ 52\<close>.
\<close>

lemma pixel_limit: "2 * MAX_IMAGE_PIXELS = 178956970"
  by (simp add: MAX_IMAGE_PIXELS_def)

lemma Image_open_accepts:
  assumes "files w fp = Some (ImageFile img)" and "0 < xsize img" and "0 < ysize img"
    and "xsize img * ysize img \<le> 178956970"
  shows "Image_open w fp = Inr img"
  using assms
  by (simp add: Image_open_def decompression_bomb_check_def pixel_limit Let_def max_def)

lemma valid_input_opens:
  "valid_input w img \<Longrightarrow> Image_open w ''Logo_Rounded.png'' = Inr img"
  by (rule Image_open_accepts) (simp_all add: valid_input_def)

lemma side_below_limit:
  fixes x y :: nat
  assumes "0 < y" and "x * y \<le> 178956970"
  shows "x < 2 ^ 52"
proof -
  from assms(1) have "1 \<le> y" by simp
  then have "x * 1 \<le> x * y" by (rule mult_le_mono2)
  then have "x \<le> x * y" by simp
  with assms(2) have "x \<le> 178956970" by linarith
  then show ?thesis by simp
qed

lemma valid_input_sides:
  assumes "valid_input w img"
  shows "xsize img < 2 ^ 52" and "ysize img < 2 ^ 52"
proof -
  from assms have p: "0 < xsize img" "0 < ysize img" "xsize img * ysize img \<le> 178956970"
    by (simp_all add: valid_input_def)
  from p(2,3) show "xsize img < 2 ^ 52" by (rule side_below_limit)
  from p(3) have "ysize img * xsize img \<le> 178956970" by (simp add: mult.commute)
  with p(1) show "ysize img < 2 ^ 52" by (rule side_below_limit)
qed

subsection \<open>The run on a valid input\<close>

lemma Image_new_canvas:
  "new_error w (nw, nh) = None \<Longrightarrow> Image_new w RGBA (nw, nh) (0, 0, 0, 0) = Inr (canvas nw nh)"
  by (simp add: Image_new_def canvas_def)

lemma add_margin_success:
  assumes f: "Image_open w ''Logo_Rounded.png'' = Inr img"
    and m: "mode img = RGBA" and l: "load_error img = None"
    and wlt: "xsize img < 2 ^ 52" and hlt: "ysize img < 2 ^ 52"
    and n: "new_error w (xsize img + 2 * (xsize img div 5), ysize img + 2 * (ysize img div 5)) = None"
    and s: "save_error w ''Logo_Rounded_with_margin.png'' = None"
  shows "\<exists>out.
     add_margin w =
       w\<lparr>files := (files w)(''Logo_Rounded_with_margin.png'' \<mapsto> ImageFile out),
         stdout := stdout w @ [''Created new image with dimensions ''
                     @ str_int (xsize out) @ ''x'' @ str_int (ysize out)]\<rparr>
     \<and> mode out = RGBA
     \<and> xsize out = xsize img + 2 * (xsize img div 5)
     \<and> ysize out = ysize img + 2 * (ysize img div 5)
     \<and> load_error out = None \<and> well_formed out
     \<and> (\<forall>x y. x < xsize out \<longrightarrow> y < ysize out \<longrightarrow>
          pixels out ! y ! x =
            (if ysize img div 5 \<le> y \<and> y < ysize img div 5 + ysize img
                \<and> xsize img div 5 \<le> x \<and> x < xsize img div 5 + xsize img
             then blend_pixel (alpha (pixels img ! (y - ysize img div 5) ! (x - xsize img div 5)))
                    (0, 0, 0, 0) (pixels img ! (y - ysize img div 5) ! (x - xsize img div 5))
             else (0, 0, 0, 0)))"
proof -
  let ?mw = "xsize img div 5" and ?mh = "ysize img div 5"
  from paste_canvas [OF m l, of ?mw ?mh] obtain out where
    p: "paste (canvas (xsize img + 2 * ?mw) (ysize img + 2 * ?mh)) img (?mw, ?mh) img = Inr out"
    and o: "mode out = RGBA" "xsize out = xsize img + 2 * ?mw" "ysize out = ysize img + 2 * ?mh"
      "load_error out = None" "well_formed out"
    and px: "\<forall>x y. x < xsize out \<longrightarrow> y < ysize out \<longrightarrow>
          pixels out ! y ! x =
            (if ?mh \<le> y \<and> y < ?mh + ysize img \<and> ?mw \<le> x \<and> x < ?mw + xsize img
             then blend_pixel (alpha (pixels img ! (y - ?mh) ! (x - ?mw))) (0, 0, 0, 0)
                    (pixels img ! (y - ?mh) ! (x - ?mw))
             else (0, 0, 0, 0))"
    by blast
  have t: "add_margin_try w =
      (Inr (), print (''Created new image with dimensions ''
                 @ str_int (xsize img + 2 * ?mw) @ ''x'' @ str_int (ysize img + 2 * ?mh))
               (w\<lparr>files := (files w)(''Logo_Rounded_with_margin.png'' \<mapsto> ImageFile out)\<rparr>))"
    using n s p o(4)
    by (simp add: add_margin_try_def f int_mul_0_2_div5 [OF wlt]
        int_mul_0_2_div5 [OF hlt] Image_new_canvas save_def load_def Let_def)
  have "add_margin w =
       w\<lparr>files := (files w)(''Logo_Rounded_with_margin.png'' \<mapsto> ImageFile out),
         stdout := stdout w @ [''Created new image with dimensions ''
                     @ str_int (xsize out) @ ''x'' @ str_int (ysize out)]\<rparr>"
    by (simp add: add_margin_def t print_def o)
  with o px show ?thesis by blast
qed

lemma saved_image_update:
  "saved_image (w\<lparr>files := (files w)(''Logo_Rounded_with_margin.png'' \<mapsto> ImageFile out),
                 stdout := l\<rparr>) = Some out"
  by (simp add: saved_image_def)

lemma run_valid:
  assumes v: "valid_input w img"
    and a: "new_error w (xsize img + 2 * (xsize img div 5), ysize img + 2 * (ysize img div 5)) = None"
    and s: "save_error w ''Logo_Rounded_with_margin.png'' = None"
  shows "\<exists>out.
     add_margin w =
       w\<lparr>files := (files w)(''Logo_Rounded_with_margin.png'' \<mapsto> ImageFile out),
         stdout := stdout w @ [''Created new image with dimensions ''
                     @ str_int (xsize out) @ ''x'' @ str_int (ysize out)]\<rparr>
     \<and> saved_image (add_margin w) = Some out
     \<and> mode out = RGBA
     \<and> xsize out = xsize img + 2 * (xsize img div 5)
     \<and> ysize out = ysize img + 2 * (ysize img div 5)
     \<and> load_error out = None \<and> well_formed out
     \<and> (\<forall>x y. x < xsize out \<longrightarrow> y < ysize out \<longrightarrow>
          getpixel out (x, y) =
            (if ysize img div 5 \<le> y \<and> y < ysize img div 5 + ysize img
                \<and> xsize img div 5 \<le> x \<and> x < xsize img div 5 + xsize img
             then blend_pixel (alpha (getpixel img (x - xsize img div 5, y - ysize img div 5)))
                    (0, 0, 0, 0) (getpixel img (x - xsize img div 5, y - ysize img div 5))
             else (0, 0, 0, 0)))"
proof -
  from v have m: "mode img = RGBA" and l: "load_error img = None"
    by (simp_all add: valid_input_def)
  note f = valid_input_opens [OF v]
  note wlt = valid_input_sides(1) [OF v] and hlt = valid_input_sides(2) [OF v]
  from add_margin_success [OF f m l wlt hlt a s] obtain out where
    r: "add_margin w =
       w\<lparr>files := (files w)(''Logo_Rounded_with_margin.png'' \<mapsto> ImageFile out),
         stdout := stdout w @ [''Created new image with dimensions ''
                     @ str_int (xsize out) @ ''x'' @ str_int (ysize out)]\<rparr>"
    and o: "mode out = RGBA" "xsize out = xsize img + 2 * (xsize img div 5)"
      "ysize out = ysize img + 2 * (ysize img div 5)" "load_error out = None" "well_formed out"
    and px: "\<forall>x y. x < xsize out \<longrightarrow> y < ysize out \<longrightarrow>
          pixels out ! y ! x =
            (if ysize img div 5 \<le> y \<and> y < ysize img div 5 + ysize img
                \<and> xsize img div 5 \<le> x \<and> x < xsize img div 5 + xsize img
             then blend_pixel (alpha (pixels img ! (y - ysize img div 5) ! (x - xsize img div 5)))
                    (0, 0, 0, 0) (pixels img ! (y - ysize img div 5) ! (x - xsize img div 5))
             else (0, 0, 0, 0))"
    by blast
  have sv: "saved_image (add_margin w) = Some out"
    unfolding r by (rule saved_image_update)
  from r sv o px show ?thesis
    unfolding getpixel_def fst_conv snd_conv by blast
qed

text \<open>The test inputs are valid inputs of a world without failures.\<close>

lemma valid_solid:
  "0 < w \<Longrightarrow> 0 < h \<Longrightarrow> w * h \<le> 178956970 \<Longrightarrow>
   valid_input (world_with (solid RGBA w h p)) (solid RGBA w h p)"
  by (simp add: valid_input_def world_with_def solid_def well_formed_def list_all_length)

lemma valid_strip:
  "ps \<noteq> [] \<Longrightarrow> length ps \<le> 178956970 \<Longrightarrow> valid_input (world_with (strip ps)) (strip ps)"
  by (simp add: valid_input_def world_with_def strip_def well_formed_def)

lemma valid_input_new_error:
  "valid_input (w\<lparr>new_error := f\<rparr>) img = valid_input w img"
  by (simp add: valid_input_def)

lemma world_with_env:
  "new_error (world_with img) sz = None" "save_error (world_with img) fp = None"
  "stdout (world_with img) = []"
  by (simp_all add: world_with_def)

subsection \<open>Dimensions of the output\<close>

text \<open>
  Claim C1. For every valid input image of width \<open>W\<close> and height \<open>H\<close>, when the allocation of
  the canvas and the write succeed, \<open>add_margin\<close> saves an image whose dimensions are
  exactly \<open>(W + 2 * (W div 5), H + 2 * (H div 5))\<close>: that many rows of that many pixels. The
  line it prints on success reports these dimensions.
\<close>

theorem output_dimensions:
  assumes "valid_input w img"
    and "new_error w (xsize img + 2 * (xsize img div 5), ysize img + 2 * (ysize img div 5)) = None"
    and "save_error w ''Logo_Rounded_with_margin.png'' = None"
  shows "\<exists>out. saved_image (add_margin w) = Some out \<and> well_formed out
     \<and> xsize out = xsize img + 2 * (xsize img div 5)
     \<and> ysize out = ysize img + 2 * (ysize img div 5)
     \<and> stdout (add_margin w) =
         stdout w @ [''Created new image with dimensions ''
                       @ str_int (xsize out) @ ''x'' @ str_int (ysize out)]"
proof -
  from run_valid [OF assms] obtain out where
    r: "add_margin w =
       w\<lparr>files := (files w)(''Logo_Rounded_with_margin.png'' \<mapsto> ImageFile out),
         stdout := stdout w @ [''Created new image with dimensions ''
                     @ str_int (xsize out) @ ''x'' @ str_int (ysize out)]\<rparr>"
    and o: "saved_image (add_margin w) = Some out" "well_formed out"
      "xsize out = xsize img + 2 * (xsize img div 5)"
      "ysize out = ysize img + 2 * (ysize img div 5)"
    by blast
  have "stdout (add_margin w) =
         stdout w @ [''Created new image with dimensions ''
                       @ str_int (xsize out) @ ''x'' @ str_int (ysize out)]"
    unfolding r by simp
  with o show ?thesis by blast
qed

text \<open>
  The 10 by 10 opaque red square becomes a 14 by 14 image, in a world where a canvas of
  14 by 14 pixels can be allocated and no other.
\<close>

theorem output_dimensions_witness:
  "valid_input
     ((world_with (solid RGBA 10 10 (255, 0, 0, 255)))
        \<lparr>new_error := (\<lambda>sz. if sz = (14, 14) then None else Some MemoryError)\<rparr>)
     (solid RGBA 10 10 (255, 0, 0, 255))
   \<and> new_error
        ((world_with (solid RGBA 10 10 (255, 0, 0, 255)))
           \<lparr>new_error := (\<lambda>sz. if sz = (14, 14) then None else Some MemoryError)\<rparr>)
        (xsize (solid RGBA 10 10 (255, 0, 0, 255)) + 2 * (xsize (solid RGBA 10 10 (255, 0, 0, 255)) div 5),
         ysize (solid RGBA 10 10 (255, 0, 0, 255)) + 2 * (ysize (solid RGBA 10 10 (255, 0, 0, 255)) div 5))
      = None
   \<and> new_error
        ((world_with (solid RGBA 10 10 (255, 0, 0, 255)))
           \<lparr>new_error := (\<lambda>sz. if sz = (14, 14) then None else Some MemoryError)\<rparr>)
        (10, 10) = Some MemoryError
   \<and> save_error
        ((world_with (solid RGBA 10 10 (255, 0, 0, 255)))
           \<lparr>new_error := (\<lambda>sz. if sz = (14, 14) then None else Some MemoryError)\<rparr>)
        ''Logo_Rounded_with_margin.png'' = None
   \<and> (\<exists>out. saved_image (add_margin
          ((world_with (solid RGBA 10 10 (255, 0, 0, 255)))
             \<lparr>new_error := (\<lambda>sz. if sz = (14, 14) then None else Some MemoryError)\<rparr>)) = Some out
        \<and> well_formed out \<and> xsize out = 14 \<and> ysize out = 14
        \<and> stdout (add_margin
             ((world_with (solid RGBA 10 10 (255, 0, 0, 255)))
                \<lparr>new_error := (\<lambda>sz. if sz = (14, 14) then None else Some MemoryError)\<rparr>)) =
             [''Created new image with dimensions 14x14''])"
proof -
  let ?img = "solid RGBA 10 10 (255, 0, 0, 255)"
  let ?w = "(world_with ?img)\<lparr>new_error := (\<lambda>sz. if sz = (14, 14) then None else Some MemoryError)\<rparr>"
  have v: "valid_input ?w ?img" by (simp add: valid_input_new_error valid_solid)
  have dd: "xsize ?img = 10" "ysize ?img = 10" by (simp_all add: solid_def)
  have a: "new_error ?w (xsize ?img + 2 * (xsize ?img div 5), ysize ?img + 2 * (ysize ?img div 5)) = None"
    by (simp add: dd)
  have a': "new_error ?w (10, 10) = Some MemoryError" by simp
  have s: "save_error ?w ''Logo_Rounded_with_margin.png'' = None"
    by (simp add: world_with_env)
  have d: "str_int 14 = ''14''" by (simp add: str_int.simps)
  from output_dimensions [OF v a s] obtain out where
    o: "saved_image (add_margin ?w) = Some out" "well_formed out"
      "xsize out = xsize ?img + 2 * (xsize ?img div 5)"
      "ysize out = ysize ?img + 2 * (ysize ?img div 5)"
      "stdout (add_margin ?w) =
         stdout ?w @ [''Created new image with dimensions ''
                       @ str_int (xsize out) @ ''x'' @ str_int (ysize out)]"
    by blast
  from o(3,4) have x: "xsize out = 14" "ysize out = 14" by (simp_all add: dd)
  from o(5) have "stdout (add_margin ?w) = [''Created new image with dimensions 14x14'']"
    by (simp add: x d world_with_env)
  with v a a' s o(1,2) x show ?thesis by blast
qed

subsection \<open>The margin and the pasted block\<close>

text \<open>
  Claim C2. For every valid input image, every pixel of the saved image outside the
  rectangle \<open>[margin_w, margin_w + W) \<times> [margin_h, margin_h + H)\<close> is transparent black,
  \<open>(0, 0, 0, 0)\<close>.
\<close>

theorem margin_is_transparent:
  assumes "valid_input w img"
    and "new_error w (xsize img + 2 * (xsize img div 5), ysize img + 2 * (ysize img div 5)) = None"
    and "save_error w ''Logo_Rounded_with_margin.png'' = None"
  shows "\<exists>out. saved_image (add_margin w) = Some out
     \<and> xsize out = xsize img + 2 * (xsize img div 5)
     \<and> ysize out = ysize img + 2 * (ysize img div 5)
     \<and> (\<forall>x y. x < xsize out \<longrightarrow> y < ysize out \<longrightarrow>
          \<not> (xsize img div 5 \<le> x \<and> x < xsize img div 5 + xsize img
             \<and> ysize img div 5 \<le> y \<and> y < ysize img div 5 + ysize img) \<longrightarrow>
          getpixel out (x, y) = (0, 0, 0, 0))"
proof -
  from run_valid [OF assms] obtain out where
    o: "saved_image (add_margin w) = Some out"
      "xsize out = xsize img + 2 * (xsize img div 5)"
      "ysize out = ysize img + 2 * (ysize img div 5)"
    and px: "\<forall>x y. x < xsize out \<longrightarrow> y < ysize out \<longrightarrow>
          getpixel out (x, y) =
            (if ysize img div 5 \<le> y \<and> y < ysize img div 5 + ysize img
                \<and> xsize img div 5 \<le> x \<and> x < xsize img div 5 + xsize img
             then blend_pixel (alpha (getpixel img (x - xsize img div 5, y - ysize img div 5)))
                    (0, 0, 0, 0) (getpixel img (x - xsize img div 5, y - ysize img div 5))
             else (0, 0, 0, 0))"
    by blast
  have "getpixel out (x, y) = (0, 0, 0, 0)"
    if "x < xsize out" "y < ysize out"
      "\<not> (xsize img div 5 \<le> x \<and> x < xsize img div 5 + xsize img
             \<and> ysize img div 5 \<le> y \<and> y < ysize img div 5 + ysize img)" for x y
    using px that by auto
  with o show ?thesis by blast
qed

text \<open>Four pixels of the border around the 10 by 10 red square.\<close>

theorem margin_is_transparent_witness:
  "valid_input (world_with (solid RGBA 10 10 (255, 0, 0, 255))) (solid RGBA 10 10 (255, 0, 0, 255))
   \<and> new_error (world_with (solid RGBA 10 10 (255, 0, 0, 255)))
        (xsize (solid RGBA 10 10 (255, 0, 0, 255)) + 2 * (xsize (solid RGBA 10 10 (255, 0, 0, 255)) div 5),
         ysize (solid RGBA 10 10 (255, 0, 0, 255)) + 2 * (ysize (solid RGBA 10 10 (255, 0, 0, 255)) div 5))
      = None
   \<and> save_error (world_with (solid RGBA 10 10 (255, 0, 0, 255))) ''Logo_Rounded_with_margin.png'' = None
   \<and> (\<exists>out. saved_image (add_margin (world_with (solid RGBA 10 10 (255, 0, 0, 255)))) = Some out
        \<and> xsize out = 14 \<and> ysize out = 14
        \<and> getpixel out (0, 0) = (0, 0, 0, 0) \<and> getpixel out (1, 7) = (0, 0, 0, 0)
        \<and> getpixel out (13, 13) = (0, 0, 0, 0) \<and> getpixel out (5, 12) = (0, 0, 0, 0))"
proof -
  let ?img = "solid RGBA 10 10 (255, 0, 0, 255)"
  have v: "valid_input (world_with ?img) ?img" by (simp add: valid_solid)
  have a: "new_error (world_with ?img)
      (xsize ?img + 2 * (xsize ?img div 5), ysize ?img + 2 * (ysize ?img div 5)) = None"
    by (simp add: world_with_env)
  have s: "save_error (world_with ?img) ''Logo_Rounded_with_margin.png'' = None"
    by (simp add: world_with_env)
  have d: "xsize ?img = 10" "ysize ?img = 10" by (simp_all add: solid_def)
  from margin_is_transparent [OF v a s] obtain out where
    o: "saved_image (add_margin (world_with ?img)) = Some out"
      "xsize out = 14" "ysize out = 14"
    and px: "\<forall>x y. x < 14 \<longrightarrow> y < 14 \<longrightarrow>
          \<not> (2 \<le> x \<and> x < 12 \<and> 2 \<le> y \<and> y < 12) \<longrightarrow> getpixel out (x, y) = (0, 0, 0, 0)"
    unfolding d by auto
  from px have "getpixel out (0, 0) = (0, 0, 0, 0)" "getpixel out (1, 7) = (0, 0, 0, 0)"
    "getpixel out (13, 13) = (0, 0, 0, 0)" "getpixel out (5, 12) = (0, 0, 0, 0)"
    by simp_all
  with v a s o show ?thesis by blast
qed



text \<open>The script run on a one-row image of five pixels, in closed form.\<close>

lemma paste_strip5:
  "paste (canvas 7 1) (strip [p0, p1, p2, p3, p4]) (1, 0) (strip [p0, p1, p2, p3, p4]) =
   Inr \<lparr>mode = RGBA, xsize = 7, ysize = 1,
          pixels = [[(0, 0, 0, 0),
                     blend_pixel (alpha p0) (0, 0, 0, 0) p0, blend_pixel (alpha p1) (0, 0, 0, 0) p1,
                     blend_pixel (alpha p2) (0, 0, 0, 0) p2, blend_pixel (alpha p3) (0, 0, 0, 0) p3,
                     blend_pixel (alpha p4) (0, 0, 0, 0) p4,
                     (0, 0, 0, 0)]],
          load_error = None\<rparr>"
proof -
  have u: "[0..<5] = [0, 1, 2, 3, 4]" "[0..<1] = [0]"
    by (simp_all add: upt_rec)
  have r: "replicate 7 (0 :: 8 word, 0 :: 8 word, 0 :: 8 word, 0 :: 8 word) =
      [(0, 0, 0, 0), (0, 0, 0, 0), (0, 0, 0, 0), (0, 0, 0, 0), (0, 0, 0, 0), (0, 0, 0, 0), (0, 0, 0, 0)]"
    by (simp add: eval_nat_numeral)
  show ?thesis
    by (simp add: paste_def load_def canvas_def strip_def ImagingPaste_def paste_mask_RGBA_def
        paste_mask_row_def u r del: blend_pixel.simps)
qed

lemma add_margin_strip5:
  "saved_image (add_margin (world_with (strip [p0, p1, p2, p3, p4]))) =
   Some \<lparr>mode = RGBA, xsize = 7, ysize = 1,
          pixels = [[(0, 0, 0, 0),
                     blend_pixel (alpha p0) (0, 0, 0, 0) p0, blend_pixel (alpha p1) (0, 0, 0, 0) p1,
                     blend_pixel (alpha p2) (0, 0, 0, 0) p2, blend_pixel (alpha p3) (0, 0, 0, 0) p3,
                     blend_pixel (alpha p4) (0, 0, 0, 0) p4,
                     (0, 0, 0, 0)]],
          load_error = None\<rparr>"
proof -
  let ?img = "strip [p0, p1, p2, p3, p4]"
  have d: "xsize ?img = 5" "ysize ?img = 1" by (simp_all add: strip_def)
  have m: "int_mul_0_2 5 = Inr 1" "int_mul_0_2 1 = Inr 0"
    by (simp_all add: int_mul_0_2_div5)
  have n: "Image_new (world_with ?img) RGBA (7, 1) (0, 0, 0, 0) = Inr (canvas 7 1)"
    by (rule Image_new_canvas) (simp add: world_with_env)
  have f: "Image_open (world_with ?img) ''Logo_Rounded.png'' = Inr ?img"
    by (rule valid_input_opens) (simp add: valid_strip)
  have s: "save_error (world_with ?img) ''Logo_Rounded_with_margin.png'' = None"
    by (simp add: world_with_def)
  have e: "(5::nat) + 2 * 1 = 7" "(1::nat) + 2 * 0 = 1" by simp_all
  show ?thesis
    by (simp add: add_margin_def add_margin_try_def f s d m e n paste_strip5
        save_def load_def print_def saved_image_def del: One_nat_def blend_pixel.simps)
qed

lemma BLEND_values:
  "BLEND 128 0 255 = 128" "BLEND 128 0 0 = 0" "BLEND 128 0 128 = 64"
  "BLEND 128 0 10 = 5" "BLEND 128 0 20 = 10" "BLEND 128 0 30 = 15"
  by (simp_all add: BLEND_def DIV255_def)


subsection \<open>Partial transparency\<close>

text \<open>
  Claim C4 says that a pixel with alpha 128 appears in the output with alpha 128 unchanged.
  The script pastes the image with itself as mask, so \<open>paste_mask_RGBA\<close> blends every byte
  of the pixel, the alpha byte included, with the transparent canvas, weighted by the alpha.
  On the one-row image below the opaque pixels are kept and the transparent ones are cleared,
  but the pixel \<open>(255, 0, 0, 128)\<close> is saved as \<open>(128, 0, 0, 64)\<close>.
\<close>

theorem half_transparent_pixel_fades:
  "saved_image (add_margin (world_with
      (strip [(10, 20, 30, 255), (40, 50, 60, 0), (255, 0, 0, 128), (9, 9, 9, 255), (1, 2, 3, 0)]))) =
   Some \<lparr>mode = RGBA, xsize = 7, ysize = 1,
          pixels = [[(0, 0, 0, 0), (10, 20, 30, 255), (0, 0, 0, 0), (128, 0, 0, 64),
                     (9, 9, 9, 255), (0, 0, 0, 0), (0, 0, 0, 0)]],
          load_error = None\<rparr>"
  by (simp add: add_margin_strip5 BLEND_opaque BLEND_clear BLEND_values)

subsection \<open>Truncation of the margin\<close>

lemma valid_input_margins:
  assumes "valid_input w img"
  shows "int_mul_0_2 (xsize img) = Inr (xsize img div 5)"
    and "int_mul_0_2 (ysize img) = Inr (ysize img div 5)"
  using valid_input_sides [OF assms] by (simp_all add: int_mul_0_2_div5)

text \<open>
  Claim C5. The margin is truncated, not rounded: \<open>int(n * 0.2)\<close> is \<open>n div 5\<close> for every
  \<open>n\<close> below \<open>2 ^ 52\<close>, although the product is computed in binary64, and so for the width and
  the height of every valid input image. In particular \<open>int(7 * 0.2) = 1\<close> and a 7 by 7
  input gives a 9 by 9 output, and \<open>int(10 * 0.2) = 2\<close> and a 10 by 10 input gives a 14 by 14
  output, when the canvas of that size is allocated and the write succeeds.
\<close>

theorem margin_truncates:
  "(\<forall>n. n < 2 ^ 52 \<longrightarrow> int_mul_0_2 n = Inr (n div 5))
   \<and> (\<forall>w img. valid_input w img \<longrightarrow>
         int_mul_0_2 (xsize img) = Inr (xsize img div 5)
         \<and> int_mul_0_2 (ysize img) = Inr (ysize img div 5))
   \<and> int_mul_0_2 7 = Inr 1 \<and> int_mul_0_2 10 = Inr 2
   \<and> (\<forall>w img. valid_input w img \<and> xsize img = 7 \<and> ysize img = 7
         \<and> new_error w (9, 9) = None
         \<and> save_error w ''Logo_Rounded_with_margin.png'' = None \<longrightarrow>
         (\<exists>out. saved_image (add_margin w) = Some out \<and> xsize out = 9 \<and> ysize out = 9))
   \<and> (\<forall>w img. valid_input w img \<and> xsize img = 10 \<and> ysize img = 10
         \<and> new_error w (14, 14) = None
         \<and> save_error w ''Logo_Rounded_with_margin.png'' = None \<longrightarrow>
         (\<exists>out. saved_image (add_margin w) = Some out \<and> xsize out = 14 \<and> ysize out = 14))"
proof (intro conjI allI impI)
  fix n :: nat
  assume "n < 2 ^ 52"
  then show "int_mul_0_2 n = Inr (n div 5)" by (rule int_mul_0_2_div5)
next
  fix w img
  assume "valid_input w img"
  then show "int_mul_0_2 (xsize img) = Inr (xsize img div 5)"
    and "int_mul_0_2 (ysize img) = Inr (ysize img div 5)"
    by (rule valid_input_margins)+
next
  show "int_mul_0_2 7 = Inr 1" by (simp add: int_mul_0_2_div5)
  show "int_mul_0_2 10 = Inr 2" by (simp add: int_mul_0_2_div5)
next
  fix w img
  assume h: "valid_input w img \<and> xsize img = 7 \<and> ysize img = 7
         \<and> new_error w (9, 9) = None
         \<and> save_error w ''Logo_Rounded_with_margin.png'' = None"
  then have v: "valid_input w img"
    and a: "new_error w (xsize img + 2 * (xsize img div 5), ysize img + 2 * (ysize img div 5)) = None"
    and s: "save_error w ''Logo_Rounded_with_margin.png'' = None"
    by simp_all
  from run_valid [OF v a s] h
  show "\<exists>out. saved_image (add_margin w) = Some out \<and> xsize out = 9 \<and> ysize out = 9"
    by auto
next
  fix w img
  assume h: "valid_input w img \<and> xsize img = 10 \<and> ysize img = 10
         \<and> new_error w (14, 14) = None
         \<and> save_error w ''Logo_Rounded_with_margin.png'' = None"
  then have v: "valid_input w img"
    and a: "new_error w (xsize img + 2 * (xsize img div 5), ysize img + 2 * (ysize img div 5)) = None"
    and s: "save_error w ''Logo_Rounded_with_margin.png'' = None"
    by simp_all
  from run_valid [OF v a s] h
  show "\<exists>out. saved_image (add_margin w) = Some out \<and> xsize out = 14 \<and> ysize out = 14"
    by auto
qed

text \<open>\<open>int(9 * 0.2) = 1\<close>, and a 7 by 7 and a 10 by 10 blue square.\<close>

theorem margin_truncates_witness:
  "(9 :: nat) < 2 ^ 52 \<and> int_mul_0_2 9 = Inr 1
   \<and> valid_input (world_with (solid RGBA 7 7 (0, 0, 255, 255))) (solid RGBA 7 7 (0, 0, 255, 255))
   \<and> xsize (solid RGBA 7 7 (0, 0, 255, 255)) = 7 \<and> ysize (solid RGBA 7 7 (0, 0, 255, 255)) = 7
   \<and> new_error (world_with (solid RGBA 7 7 (0, 0, 255, 255))) (9, 9) = None
   \<and> save_error (world_with (solid RGBA 7 7 (0, 0, 255, 255))) ''Logo_Rounded_with_margin.png'' = None
   \<and> (\<exists>out. saved_image (add_margin (world_with (solid RGBA 7 7 (0, 0, 255, 255)))) = Some out
        \<and> xsize out = 9 \<and> ysize out = 9)
   \<and> valid_input (world_with (solid RGBA 10 10 (0, 0, 255, 255))) (solid RGBA 10 10 (0, 0, 255, 255))
   \<and> xsize (solid RGBA 10 10 (0, 0, 255, 255)) = 10 \<and> ysize (solid RGBA 10 10 (0, 0, 255, 255)) = 10
   \<and> new_error (world_with (solid RGBA 10 10 (0, 0, 255, 255))) (14, 14) = None
   \<and> save_error (world_with (solid RGBA 10 10 (0, 0, 255, 255))) ''Logo_Rounded_with_margin.png'' = None
   \<and> (\<exists>out. saved_image (add_margin (world_with (solid RGBA 10 10 (0, 0, 255, 255)))) = Some out
        \<and> xsize out = 14 \<and> ysize out = 14)"
proof -
  let ?a = "solid RGBA 7 7 (0, 0, 255, 255)" and ?b = "solid RGBA 10 10 (0, 0, 255, 255)"
  have n: "(9 :: nat) < 2 ^ 52" by simp
  from margin_truncates [THEN conjunct1, rule_format, OF n]
  have r9: "int_mul_0_2 9 = Inr 1" by simp
  have ha: "valid_input (world_with ?a) ?a \<and> xsize ?a = 7 \<and> ysize ?a = 7
      \<and> new_error (world_with ?a) (9, 9) = None
      \<and> save_error (world_with ?a) ''Logo_Rounded_with_margin.png'' = None"
    by (simp add: valid_solid world_with_env) (simp add: solid_def)
  have hb: "valid_input (world_with ?b) ?b \<and> xsize ?b = 10 \<and> ysize ?b = 10
      \<and> new_error (world_with ?b) (14, 14) = None
      \<and> save_error (world_with ?b) ''Logo_Rounded_with_margin.png'' = None"
    by (simp add: valid_solid world_with_env) (simp add: solid_def)
  note t = margin_truncates [THEN conjunct2, THEN conjunct2, THEN conjunct2, THEN conjunct2]
  from t [THEN conjunct1, rule_format, OF ha]
  have ra: "\<exists>out. saved_image (add_margin (world_with ?a)) = Some out \<and> xsize out = 9 \<and> ysize out = 9" .
  from t [THEN conjunct2, rule_format, OF hb]
  have rb: "\<exists>out. saved_image (add_margin (world_with ?b)) = Some out \<and> xsize out = 14 \<and> ysize out = 14" .
  from n r9 ha ra hb rb show ?thesis by blast
qed

text \<open>
  Claim C10. For every valid source image with width at most 4 the computed \<open>margin_w\<close> is
  0 and the output has the width of the input, and likewise for the height; the run
  succeeds on such an image, nothing clamps or rejects it.
\<close>

theorem small_sides_are_kept:
  assumes "valid_input w img"
    and "new_error w (xsize img + 2 * (xsize img div 5), ysize img + 2 * (ysize img div 5)) = None"
    and "save_error w ''Logo_Rounded_with_margin.png'' = None"
  shows "\<exists>out. saved_image (add_margin w) = Some out
     \<and> stdout (add_margin w) =
         stdout w @ [''Created new image with dimensions ''
                       @ str_int (xsize out) @ ''x'' @ str_int (ysize out)]
     \<and> (xsize img \<le> 4 \<longrightarrow> int_mul_0_2 (xsize img) = Inr 0 \<and> xsize out = xsize img)
     \<and> (ysize img \<le> 4 \<longrightarrow> int_mul_0_2 (ysize img) = Inr 0 \<and> ysize out = ysize img)"
proof -
  from run_valid [OF assms] obtain out where
    r: "add_margin w =
       w\<lparr>files := (files w)(''Logo_Rounded_with_margin.png'' \<mapsto> ImageFile out),
         stdout := stdout w @ [''Created new image with dimensions ''
                     @ str_int (xsize out) @ ''x'' @ str_int (ysize out)]\<rparr>"
    and o: "saved_image (add_margin w) = Some out"
      "xsize out = xsize img + 2 * (xsize img div 5)"
      "ysize out = ysize img + 2 * (ysize img div 5)"
    by blast
  have p: "stdout (add_margin w) =
         stdout w @ [''Created new image with dimensions ''
                       @ str_int (xsize out) @ ''x'' @ str_int (ysize out)]"
    unfolding r by simp
  have x: "xsize img \<le> 4 \<longrightarrow> int_mul_0_2 (xsize img) = Inr 0 \<and> xsize out = xsize img"
    using valid_input_margins(1) [OF assms(1)] o(2) by simp
  have y: "ysize img \<le> 4 \<longrightarrow> int_mul_0_2 (ysize img) = Inr 0 \<and> ysize out = ysize img"
    using valid_input_margins(2) [OF assms(1)] o(3) by simp
  from o(1) p x y show ?thesis by blast
qed

text \<open>A 4 by 3 green rectangle is saved as a 4 by 3 image.\<close>

theorem small_sides_are_kept_witness:
  "valid_input (world_with (solid RGBA 4 3 (0, 255, 0, 255))) (solid RGBA 4 3 (0, 255, 0, 255))
   \<and> new_error (world_with (solid RGBA 4 3 (0, 255, 0, 255)))
        (xsize (solid RGBA 4 3 (0, 255, 0, 255)) + 2 * (xsize (solid RGBA 4 3 (0, 255, 0, 255)) div 5),
         ysize (solid RGBA 4 3 (0, 255, 0, 255)) + 2 * (ysize (solid RGBA 4 3 (0, 255, 0, 255)) div 5))
      = None
   \<and> save_error (world_with (solid RGBA 4 3 (0, 255, 0, 255))) ''Logo_Rounded_with_margin.png'' = None
   \<and> int_mul_0_2 4 = Inr 0 \<and> int_mul_0_2 3 = Inr 0
   \<and> (\<exists>out. saved_image (add_margin (world_with (solid RGBA 4 3 (0, 255, 0, 255)))) = Some out
        \<and> xsize out = 4 \<and> ysize out = 3
        \<and> stdout (add_margin (world_with (solid RGBA 4 3 (0, 255, 0, 255)))) =
             [''Created new image with dimensions 4x3''])"
proof -
  let ?img = "solid RGBA 4 3 (0, 255, 0, 255)"
  have v: "valid_input (world_with ?img) ?img" by (simp add: valid_solid)
  have a: "new_error (world_with ?img)
      (xsize ?img + 2 * (xsize ?img div 5), ysize ?img + 2 * (ysize ?img div 5)) = None"
    by (simp add: world_with_env)
  have s: "save_error (world_with ?img) ''Logo_Rounded_with_margin.png'' = None"
    by (simp add: world_with_env)
  have d: "xsize ?img = 4" "ysize ?img = 3" by (simp_all add: solid_def)
  have n: "str_int 4 = ''4''" "str_int 3 = ''3''" by (simp_all add: str_int.simps)
  from small_sides_are_kept [OF v a s] obtain out where
    o: "saved_image (add_margin (world_with ?img)) = Some out"
    and p: "stdout (add_margin (world_with ?img)) =
         stdout (world_with ?img) @ [''Created new image with dimensions ''
                       @ str_int (xsize out) @ ''x'' @ str_int (ysize out)]"
    and x: "int_mul_0_2 4 = Inr 0" "xsize out = 4"
    and y: "int_mul_0_2 3 = Inr 0" "ysize out = 3"
    unfolding d by auto
  from p have "stdout (add_margin (world_with ?img)) = [''Created new image with dimensions 4x3'']"
    by (simp add: x y n world_with_env)
  with v a s o x y show ?thesis by blast
qed

subsection \<open>Repeated application\<close>

text \<open>A side never shrinks; from 5 pixels on it grows, below it stays.\<close>

lemma enlarged_apply: "s + 2 * (s div 5) = enlarged s"
  by (simp add: enlarged_def)

lemma enlarged_ge: "s \<le> enlarged s"
  by (simp add: enlarged_def)

lemma enlarged_small: "s < 5 \<Longrightarrow> enlarged s = s"
  by (simp add: enlarged_def)

lemma enlarged_grows: "5 \<le> s \<Longrightarrow> s < enlarged s"
proof -
  assume "5 \<le> s"
  then have "1 \<le> s div 5" by (simp add: less_eq_div_iff_mult_less_eq)
  then show ?thesis by (simp add: enlarged_def)
qed

lemma funpow_enlarged_ge: "s \<le> (enlarged ^^ k) s"
proof (induction k)
  case 0
  show ?case by simp
next
  case (Suc k)
  have "(enlarged ^^ k) s \<le> enlarged ((enlarged ^^ k) s)" by (rule enlarged_ge)
  with Suc show ?case by simp
qed

lemma funpow_enlarged_small: "s < 5 \<Longrightarrow> (enlarged ^^ k) s = s"
  by (induction k) (simp_all add: enlarged_small)

lemma funpow_enlarged_grows: "5 \<le> s \<Longrightarrow> (enlarged ^^ k) s < (enlarged ^^ Suc k) s"
proof -
  assume "5 \<le> s"
  also have "s \<le> (enlarged ^^ k) s" by (rule funpow_enlarged_ge)
  finally have "(enlarged ^^ k) s < enlarged ((enlarged ^^ k) s)" by (rule enlarged_grows)
  then show ?thesis by simp
qed

text \<open>
  The script run \<open>n\<close> more times on its own output. Each output that is opened again must
  be within the pixel limit, and each canvas must be allocated.
\<close>

lemma rerun_dimensions:
  assumes v: "valid_input w img"
    and s: "save_error w ''Logo_Rounded_with_margin.png'' = None"
  shows "(\<forall>k<n. (enlarged ^^ Suc k) (xsize img) * (enlarged ^^ Suc k) (ysize img) \<le> 178956970) \<Longrightarrow>
     (\<forall>k\<le>n. new_error w ((enlarged ^^ Suc k) (xsize img), (enlarged ^^ Suc k) (ysize img)) = None) \<Longrightarrow>
     \<exists>out. saved_image (rerun n w) = Some out
       \<and> files (rerun n w) ''Logo_Rounded_with_margin.png'' = Some (ImageFile out)
       \<and> mode out = RGBA \<and> load_error out = None \<and> well_formed out
       \<and> xsize out = (enlarged ^^ Suc n) (xsize img)
       \<and> ysize out = (enlarged ^^ Suc n) (ysize img)
       \<and> new_error (rerun n w) = new_error w
       \<and> save_error (rerun n w) = save_error w"
proof (induction n)
  case 0
  then have a: "new_error w (xsize img + 2 * (xsize img div 5), ysize img + 2 * (ysize img div 5)) = None"
    by (simp add: enlarged_def)
  from run_valid [OF v a s] obtain out where
    r: "add_margin w =
       w\<lparr>files := (files w)(''Logo_Rounded_with_margin.png'' \<mapsto> ImageFile out),
         stdout := stdout w @ [''Created new image with dimensions ''
                     @ str_int (xsize out) @ ''x'' @ str_int (ysize out)]\<rparr>"
    and o: "saved_image (add_margin w) = Some out" "mode out = RGBA"
      "xsize out = xsize img + 2 * (xsize img div 5)"
      "ysize out = ysize img + 2 * (ysize img div 5)"
      "load_error out = None" "well_formed out"
    by blast
  have e: "files (add_margin w) ''Logo_Rounded_with_margin.png'' = Some (ImageFile out)"
    "new_error (add_margin w) = new_error w" "save_error (add_margin w) = save_error w"
    unfolding r by simp_all
  from o e show ?case by (simp add: enlarged_def)
next
  case (Suc n)
  from Suc.prems(1) have lim: "\<forall>k<n. (enlarged ^^ Suc k) (xsize img) * (enlarged ^^ Suc k) (ysize img) \<le> 178956970"
    by simp
  from Suc.prems(2) have al: "\<forall>k\<le>n. new_error w ((enlarged ^^ Suc k) (xsize img), (enlarged ^^ Suc k) (ysize img)) = None"
    by simp
  from Suc.IH [OF lim al] obtain prev where
    p: "files (rerun n w) ''Logo_Rounded_with_margin.png'' = Some (ImageFile prev)"
      "mode prev = RGBA" "load_error prev = None" "well_formed prev"
    and d: "xsize prev = (enlarged ^^ Suc n) (xsize img)"
      "ysize prev = (enlarged ^^ Suc n) (ysize img)"
    and env: "new_error (rerun n w) = new_error w" "save_error (rerun n w) = save_error w"
    by blast
  let ?w = "feed_back (rerun n w)"
  from v have pos: "0 < xsize img" "0 < ysize img" by (simp_all add: valid_input_def)
  have "xsize img \<le> xsize prev" "ysize img \<le> ysize prev"
    unfolding d by (rule funpow_enlarged_ge)+
  with pos have pp: "0 < xsize prev" "0 < ysize prev" by simp_all
  from Suc.prems(1) have "xsize prev * ysize prev \<le> 178956970"
    unfolding d by blast
  with p pp have v': "valid_input ?w prev"
    by (simp add: valid_input_def feed_back_def)
  from Suc.prems(2) have "new_error w ((enlarged ^^ Suc (Suc n)) (xsize img), (enlarged ^^ Suc (Suc n)) (ysize img)) = None"
    by blast
  then have a': "new_error ?w (xsize prev + 2 * (xsize prev div 5), ysize prev + 2 * (ysize prev div 5)) = None"
    using env(1) by (simp add: feed_back_def d enlarged_apply)
  from s env(2) have s': "save_error ?w ''Logo_Rounded_with_margin.png'' = None"
    by (simp add: feed_back_def)
  from run_valid [OF v' a' s'] obtain out where
    r: "add_margin ?w =
       ?w\<lparr>files := (files ?w)(''Logo_Rounded_with_margin.png'' \<mapsto> ImageFile out),
         stdout := stdout ?w @ [''Created new image with dimensions ''
                     @ str_int (xsize out) @ ''x'' @ str_int (ysize out)]\<rparr>"
    and o: "saved_image (add_margin ?w) = Some out" "mode out = RGBA"
      "xsize out = xsize prev + 2 * (xsize prev div 5)"
      "ysize out = ysize prev + 2 * (ysize prev div 5)"
      "load_error out = None" "well_formed out"
    by blast
  have e: "files (add_margin ?w) ''Logo_Rounded_with_margin.png'' = Some (ImageFile out)"
    "new_error (add_margin ?w) = new_error w" "save_error (add_margin ?w) = save_error w"
    unfolding r using env by (simp_all add: feed_back_def)
  from o e show ?case by (simp add: d enlarged_apply)
qed

text \<open>
  Claim C9, as amended. The claim says that applying the transformation to its own output
  always produces a further enlarged image. It does so only for a side of at least 5
  pixels, and only while the output can be opened again. For every valid input image and
  every number \<open>n\<close> of earlier applications of the script to its own output, when every
  output up to then is within the limit of 178956970 pixels, every canvas is allocated and
  the write succeeds, the next application saves an image whose sides are those of the
  previous output enlarged by twice their fifth: no side shrinks, a side that has at least
  5 pixels in the input grows strictly, and a side of at most 4 pixels stays as it is.
\<close>

theorem repeated_application_never_shrinks:
  assumes "valid_input w img"
    and "save_error w ''Logo_Rounded_with_margin.png'' = None"
    and "\<forall>k\<le>n. (enlarged ^^ Suc k) (xsize img) * (enlarged ^^ Suc k) (ysize img) \<le> 178956970"
    and "\<forall>k\<le>Suc n. new_error w ((enlarged ^^ Suc k) (xsize img), (enlarged ^^ Suc k) (ysize img)) = None"
  shows "\<exists>a b. saved_image (rerun n w) = Some a \<and> saved_image (rerun (Suc n) w) = Some b
     \<and> xsize b = xsize a + 2 * (xsize a div 5) \<and> ysize b = ysize a + 2 * (ysize a div 5)
     \<and> xsize img \<le> xsize a \<and> xsize a \<le> xsize b
     \<and> ysize img \<le> ysize a \<and> ysize a \<le> ysize b
     \<and> (5 \<le> xsize img \<longrightarrow> xsize img < xsize a \<and> xsize a < xsize b)
     \<and> (5 \<le> ysize img \<longrightarrow> ysize img < ysize a \<and> ysize a < ysize b)
     \<and> (xsize img < 5 \<longrightarrow> xsize a = xsize img \<and> xsize b = xsize img)
     \<and> (ysize img < 5 \<longrightarrow> ysize a = ysize img \<and> ysize b = ysize img)"
proof -
  let ?W = "xsize img" and ?H = "ysize img"
  from assms(3) have lim: "\<forall>k<n. (enlarged ^^ Suc k) ?W * (enlarged ^^ Suc k) ?H \<le> 178956970"
    and lim': "\<forall>k<Suc n. (enlarged ^^ Suc k) ?W * (enlarged ^^ Suc k) ?H \<le> 178956970"
    by (simp_all add: less_Suc_eq_le)
  from assms(4) have al: "\<forall>k\<le>n. new_error w ((enlarged ^^ Suc k) ?W, (enlarged ^^ Suc k) ?H) = None"
    by simp
  from rerun_dimensions [OF assms(1,2) lim al] obtain a where
    a: "saved_image (rerun n w) = Some a"
      "xsize a = (enlarged ^^ Suc n) ?W" "ysize a = (enlarged ^^ Suc n) ?H"
    by blast
  from rerun_dimensions [OF assms(1,2) lim' assms(4)] obtain b where
    b: "saved_image (rerun (Suc n) w) = Some b"
      "xsize b = (enlarged ^^ Suc (Suc n)) ?W" "ysize b = (enlarged ^^ Suc (Suc n)) ?H"
    by blast
  have x: "xsize b = xsize a + 2 * (xsize a div 5) \<and> xsize img \<le> xsize a \<and> xsize a \<le> xsize b
     \<and> (5 \<le> xsize img \<longrightarrow> xsize img < xsize a \<and> xsize a < xsize b)
     \<and> (xsize img < 5 \<longrightarrow> xsize a = xsize img \<and> xsize b = xsize img)"
  proof (intro conjI impI)
    show "xsize b = xsize a + 2 * (xsize a div 5)" by (simp add: a b enlarged_apply)
    show "?W \<le> xsize a" unfolding a by (rule funpow_enlarged_ge)
    show "xsize a \<le> xsize b" by (simp add: a b enlarged_ge)
    show "?W < xsize a" if "5 \<le> ?W"
      using funpow_enlarged_grows [OF that, of n] funpow_enlarged_ge [of ?W n]
      unfolding a by linarith
    show "xsize a < xsize b" if "5 \<le> ?W"
      unfolding a b by (rule funpow_enlarged_grows [OF that])
    show "xsize a = ?W" if "?W < 5" unfolding a by (rule funpow_enlarged_small [OF that])
    show "xsize b = ?W" if "?W < 5" unfolding b by (rule funpow_enlarged_small [OF that])
  qed
  have y: "ysize b = ysize a + 2 * (ysize a div 5) \<and> ysize img \<le> ysize a \<and> ysize a \<le> ysize b
     \<and> (5 \<le> ysize img \<longrightarrow> ysize img < ysize a \<and> ysize a < ysize b)
     \<and> (ysize img < 5 \<longrightarrow> ysize a = ysize img \<and> ysize b = ysize img)"
  proof (intro conjI impI)
    show "ysize b = ysize a + 2 * (ysize a div 5)" by (simp add: a b enlarged_apply)
    show "?H \<le> ysize a" unfolding a by (rule funpow_enlarged_ge)
    show "ysize a \<le> ysize b" by (simp add: a b enlarged_ge)
    show "?H < ysize a" if "5 \<le> ?H"
      using funpow_enlarged_grows [OF that, of n] funpow_enlarged_ge [of ?H n]
      unfolding a by linarith
    show "ysize a < ysize b" if "5 \<le> ?H"
      unfolding a b by (rule funpow_enlarged_grows [OF that])
    show "ysize a = ?H" if "?H < 5" unfolding a by (rule funpow_enlarged_small [OF that])
    show "ysize b = ?H" if "?H < 5" unfolding b by (rule funpow_enlarged_small [OF that])
  qed
  from a(1) b(1) x y show ?thesis by blast
qed

text \<open>
  A 10 by 4 image, run three times: the width grows from 10 to 14, 18 and 24, the height
  stays 4.
\<close>

theorem repeated_application_never_shrinks_witness:
  "valid_input (world_with (solid RGBA 10 4 (255, 0, 0, 255))) (solid RGBA 10 4 (255, 0, 0, 255))
   \<and> save_error (world_with (solid RGBA 10 4 (255, 0, 0, 255))) ''Logo_Rounded_with_margin.png'' = None
   \<and> enlarged 10 = 14 \<and> enlarged 14 = 18 \<and> enlarged 18 = 24 \<and> enlarged 4 = 4
   \<and> (14 :: nat) * 4 \<le> 178956970 \<and> (18 :: nat) * 4 \<le> 178956970
   \<and> new_error (world_with (solid RGBA 10 4 (255, 0, 0, 255))) (14, 4) = None
   \<and> new_error (world_with (solid RGBA 10 4 (255, 0, 0, 255))) (18, 4) = None
   \<and> new_error (world_with (solid RGBA 10 4 (255, 0, 0, 255))) (24, 4) = None
   \<and> (\<exists>a b.
         saved_image (rerun (Suc 0) (world_with (solid RGBA 10 4 (255, 0, 0, 255)))) = Some a
       \<and> saved_image (rerun (Suc (Suc 0)) (world_with (solid RGBA 10 4 (255, 0, 0, 255)))) = Some b
       \<and> 10 < xsize a \<and> xsize a < xsize b \<and> ysize a = 4 \<and> ysize b = 4)"
proof -
  let ?img = "solid RGBA 10 4 (255, 0, 0, 255)"
  have v: "valid_input (world_with ?img) ?img" by (simp add: valid_solid)
  have s: "save_error (world_with ?img) ''Logo_Rounded_with_margin.png'' = None"
    by (simp add: world_with_env)
  have d: "xsize ?img = 10" "ysize ?img = 4" by (simp_all add: solid_def)
  have e: "enlarged 10 = 14" "enlarged 14 = 18" "enlarged 18 = 24" "enlarged 4 = 4"
    by (simp_all add: enlarged_def)
  have p: "(14 :: nat) * 4 \<le> 178956970" "(18 :: nat) * 4 \<le> 178956970" by simp_all
  have a: "new_error (world_with ?img) (14, 4) = None" "new_error (world_with ?img) (18, 4) = None"
    "new_error (world_with ?img) (24, 4) = None"
    by (simp_all add: world_with_env)
  have lim: "\<forall>k\<le>Suc 0. (enlarged ^^ Suc k) (xsize ?img) * (enlarged ^^ Suc k) (ysize ?img) \<le> 178956970"
    by (auto simp: le_Suc_eq d e)
  have al: "\<forall>k\<le>Suc (Suc 0). new_error (world_with ?img)
      ((enlarged ^^ Suc k) (xsize ?img), (enlarged ^^ Suc k) (ysize ?img)) = None"
    by (simp add: world_with_env)
  from repeated_application_never_shrinks [OF v s lim al] obtain a b where
    o: "saved_image (rerun (Suc 0) (world_with ?img)) = Some a"
      "saved_image (rerun (Suc (Suc 0)) (world_with ?img)) = Some b"
      "10 < xsize a" "xsize a < xsize b" "ysize a = 4" "ysize b = 4"
    unfolding d by auto
  with v s e p a show ?thesis by blast
qed

text \<open>
  The claim as stated fails on a 4 by 4 image: the output is 4 by 4, and so is the output
  of the script applied to that output.
\<close>

theorem small_image_counterexample:
  "map_option xsize (saved_image (add_margin (world_with (solid RGBA 4 4 (255, 0, 0, 255))))) = Some 4
   \<and> map_option ysize (saved_image (add_margin (world_with (solid RGBA 4 4 (255, 0, 0, 255))))) = Some 4
   \<and> map_option xsize (saved_image (add_margin (feed_back (add_margin
        (world_with (solid RGBA 4 4 (255, 0, 0, 255))))))) = Some 4
   \<and> map_option ysize (saved_image (add_margin (feed_back (add_margin
        (world_with (solid RGBA 4 4 (255, 0, 0, 255))))))) = Some 4"
proof -
  let ?img = "solid RGBA 4 4 (255, 0, 0, 255)"
  have v: "valid_input (world_with ?img) ?img" by (simp add: valid_solid)
  have s: "save_error (world_with ?img) ''Logo_Rounded_with_margin.png'' = None"
    by (simp add: world_with_env)
  have d: "xsize ?img = 4" "ysize ?img = 4" by (simp_all add: solid_def)
  have k: "(enlarged ^^ k) 4 = 4" for k by (rule funpow_enlarged_small) simp
  have lim: "\<forall>k<n. (enlarged ^^ Suc k) (xsize ?img) * (enlarged ^^ Suc k) (ysize ?img) \<le> 178956970"
    for n unfolding d k by simp
  have al: "\<forall>k\<le>n. new_error (world_with ?img)
      ((enlarged ^^ Suc k) (xsize ?img), (enlarged ^^ Suc k) (ysize ?img)) = None" for n
    by (simp add: world_with_env)
  from rerun_dimensions [OF v s lim al, of 0] obtain out1 where
    o1: "saved_image (add_margin (world_with ?img)) = Some out1" "xsize out1 = 4" "ysize out1 = 4"
    unfolding d k by auto
  from rerun_dimensions [OF v s lim al, of "Suc 0"] obtain out2 where
    o2: "saved_image (add_margin (feed_back (add_margin (world_with ?img)))) = Some out2"
      "xsize out2 = 4" "ysize out2 = 4"
    unfolding d k by auto
  show ?thesis by (simp add: o1 o2)
qed

subsection \<open>A source without alpha channel\<close>

text \<open>
  \<open>Image.paste\<close> converts the pasted copy of an RGB image to RGBA, but the script passes
  the same RGB image as mask, and \<open>ImagingPaste\<close> rejects a mask of mode RGB.
\<close>

lemma add_margin_rgb:
  assumes f: "files w ''Logo_Rounded.png'' = Some (ImageFile img)"
    and m: "mode img = RGB" and l: "load_error img = None"
    and px: "0 < xsize img" and py: "0 < ysize img"
    and lim: "xsize img * ysize img \<le> 178956970"
    and a: "new_error w (xsize img + 2 * (xsize img div 5), ysize img + 2 * (ysize img div 5)) = None"
  shows "add_margin w = print ''Error processing image: bad transparency mask'' w"
proof -
  let ?mw = "xsize img div 5" and ?mh = "ysize img div 5"
  have opn: "Image_open w ''Logo_Rounded.png'' = Inr img"
    using f px py lim by (rule Image_open_accepts)
  from py lim have "xsize img < 2 ^ 52" by (rule side_below_limit)
  then have mw: "int_mul_0_2 (xsize img) = Inr ?mw" by (rule int_mul_0_2_div5)
  from lim have "ysize img * xsize img \<le> 178956970" by (simp add: mult.commute)
  with px have "ysize img < 2 ^ 52" by (rule side_below_limit)
  then have mh: "int_mul_0_2 (ysize img) = Inr ?mh" by (rule int_mul_0_2_div5)
  from a have n: "Image_new w RGBA (xsize img + 2 * ?mw, ysize img + 2 * ?mh) (0, 0, 0, 0) =
      Inr (canvas (xsize img + 2 * ?mw) (ysize img + 2 * ?mh))"
    by (rule Image_new_canvas)
  have p: "paste (canvas (xsize img + 2 * ?mw) (ysize img + 2 * ?mh)) img (?mw, ?mh) img =
      Inl (ValueError ''bad transparency mask'')"
    using m l px py
    by (simp add: paste_def load_def canvas_fields convert_def ImagingPaste_def Let_def)
  have "add_margin_try w = (Inl (ValueError ''bad transparency mask''), w)"
    by (simp add: add_margin_try_def opn mw mh n p Let_def)
  then show ?thesis by (simp add: add_margin_def)
qed

text \<open>
  Claim C6, as amended. The claim says that a source without alpha channel is upgraded to
  an opaque RGBA image before compositing, so that compositing succeeds. The script
  performs no such upgrade. For every intact source image of mode RGB that \<open>Image.open\<close>
  accepts (positive sides, at most 178956970 pixels), when the canvas is allocated, the
  compositing step fails with \<open>bad transparency mask\<close>, the failure is printed and no file
  is written.
\<close>

theorem rgb_source_is_rejected:
  assumes "files w ''Logo_Rounded.png'' = Some (ImageFile img)"
    and "mode img = RGB" and "load_error img = None"
    and "0 < xsize img" and "0 < ysize img"
    and "xsize img * ysize img \<le> 178956970"
    and "new_error w (xsize img + 2 * (xsize img div 5), ysize img + 2 * (ysize img div 5)) = None"
  shows "stdout (add_margin w) = stdout w @ [''Error processing image: bad transparency mask'']
     \<and> files (add_margin w) = files w
     \<and> saved_image (add_margin w) = saved_image w"
  unfolding add_margin_rgb [OF assms] by (simp add: print_def saved_image_def)

text \<open>The 10 by 10 red square stored without alpha channel.\<close>

lemma rgb_world:
  "files (world_with (solid RGB 10 10 (255, 0, 0, 255))) ''Logo_Rounded.png'' =
     Some (ImageFile (solid RGB 10 10 (255, 0, 0, 255)))"
  "mode (solid RGB 10 10 (255, 0, 0, 255)) = RGB"
  "load_error (solid RGB 10 10 (255, 0, 0, 255)) = None"
  "0 < xsize (solid RGB 10 10 (255, 0, 0, 255))"
  "0 < ysize (solid RGB 10 10 (255, 0, 0, 255))"
  "xsize (solid RGB 10 10 (255, 0, 0, 255)) * ysize (solid RGB 10 10 (255, 0, 0, 255)) \<le> 178956970"
  "new_error (world_with (solid RGB 10 10 (255, 0, 0, 255)))
     (xsize (solid RGB 10 10 (255, 0, 0, 255)) + 2 * (xsize (solid RGB 10 10 (255, 0, 0, 255)) div 5),
      ysize (solid RGB 10 10 (255, 0, 0, 255)) + 2 * (ysize (solid RGB 10 10 (255, 0, 0, 255)) div 5))
   = None"
  by (simp_all add: world_with_def solid_def)

theorem rgb_source_is_rejected_witness:
  "files (world_with (solid RGB 10 10 (255, 0, 0, 255))) ''Logo_Rounded.png'' =
     Some (ImageFile (solid RGB 10 10 (255, 0, 0, 255)))
   \<and> mode (solid RGB 10 10 (255, 0, 0, 255)) = RGB
   \<and> load_error (solid RGB 10 10 (255, 0, 0, 255)) = None
   \<and> 0 < xsize (solid RGB 10 10 (255, 0, 0, 255))
   \<and> 0 < ysize (solid RGB 10 10 (255, 0, 0, 255))
   \<and> xsize (solid RGB 10 10 (255, 0, 0, 255)) * ysize (solid RGB 10 10 (255, 0, 0, 255)) \<le> 178956970
   \<and> new_error (world_with (solid RGB 10 10 (255, 0, 0, 255))) (14, 14) = None
   \<and> stdout (add_margin (world_with (solid RGB 10 10 (255, 0, 0, 255)))) =
        [''Error processing image: bad transparency mask'']
   \<and> files (add_margin (world_with (solid RGB 10 10 (255, 0, 0, 255)))) =
        files (world_with (solid RGB 10 10 (255, 0, 0, 255)))"
proof -
  from rgb_source_is_rejected [OF rgb_world]
  have "stdout (add_margin (world_with (solid RGB 10 10 (255, 0, 0, 255)))) =
        [''Error processing image: bad transparency mask'']"
    and "files (add_margin (world_with (solid RGB 10 10 (255, 0, 0, 255)))) =
        files (world_with (solid RGB 10 10 (255, 0, 0, 255)))"
    by (simp_all add: world_with_env)
  moreover have "new_error (world_with (solid RGB 10 10 (255, 0, 0, 255))) (14, 14) = None"
    by (simp add: world_with_env)
  ultimately show ?thesis using rgb_world(1-6) by blast
qed

text \<open>
  The claim as stated fails on that image: it decodes, it has no alpha channel, and nothing
  is saved.
\<close>

theorem rgb_source_counterexample:
  "files (world_with (solid RGB 10 10 (255, 0, 0, 255))) ''Logo_Rounded.png'' =
     Some (ImageFile (solid RGB 10 10 (255, 0, 0, 255)))
   \<and> mode (solid RGB 10 10 (255, 0, 0, 255)) = RGB
   \<and> load_error (solid RGB 10 10 (255, 0, 0, 255)) = None
   \<and> saved_image (add_margin (world_with (solid RGB 10 10 (255, 0, 0, 255)))) = None
   \<and> stdout (add_margin (world_with (solid RGB 10 10 (255, 0, 0, 255)))) =
        [''Error processing image: bad transparency mask'']"
proof -
  have "add_margin (world_with (solid RGB 10 10 (255, 0, 0, 255))) =
      print ''Error processing image: bad transparency mask''
        (world_with (solid RGB 10 10 (255, 0, 0, 255)))"
    by (rule add_margin_rgb [OF rgb_world])
  then show ?thesis
    by (simp add: print_def saved_image_def world_with_def solid_def)
qed

subsection \<open>Failures\<close>

text \<open>
  Claim C8. When the input file does not exist, \<open>add_margin\<close> prints a failure that names
  the missing file, and the file system is left exactly as it was: no file is created at
  the destination path and a file already there is untouched.
\<close>

theorem missing_input_is_reported:
  assumes "files w ''Logo_Rounded.png'' = None"
  shows "stdout (add_margin w) =
       stdout w @ [''Error processing image: [Errno 2] No such file or directory: ''
                     @ repr ''Logo_Rounded.png'']
     \<and> files (add_margin w) = files w
     \<and> saved_image (add_margin w) = saved_image w"
proof -
  have "add_margin_try w = (Inl (FileNotFoundError ''Logo_Rounded.png''), w)"
    using assms by (simp add: add_margin_try_def Image_open_def)
  then show ?thesis by (simp add: add_margin_def print_def saved_image_def)
qed

text \<open>A world without the input file, where the destination path already holds a file.\<close>

theorem missing_input_is_reported_witness:
  "files \<lparr>files = [''Logo_Rounded_with_margin.png'' \<mapsto> NotAnImage], stdout = [],
           new_error = (\<lambda>sz. None), save_error = (\<lambda>fp. None)\<rparr> ''Logo_Rounded.png'' = None
   \<and> stdout (add_margin \<lparr>files = [''Logo_Rounded_with_margin.png'' \<mapsto> NotAnImage], stdout = [],
           new_error = (\<lambda>sz. None), save_error = (\<lambda>fp. None)\<rparr>) =
        [''Error processing image: [Errno 2] No such file or directory: '' @ repr ''Logo_Rounded.png'']
   \<and> files (add_margin \<lparr>files = [''Logo_Rounded_with_margin.png'' \<mapsto> NotAnImage], stdout = [],
           new_error = (\<lambda>sz. None), save_error = (\<lambda>fp. None)\<rparr>) ''Logo_Rounded_with_margin.png'' =
        Some NotAnImage
   \<and> files (add_margin \<lparr>files = [''Logo_Rounded_with_margin.png'' \<mapsto> NotAnImage], stdout = [],
           new_error = (\<lambda>sz. None), save_error = (\<lambda>fp. None)\<rparr>) ''Logo_Rounded.png'' = None"
proof -
  let ?w = "\<lparr>files = [''Logo_Rounded_with_margin.png'' \<mapsto> NotAnImage], stdout = [],
           new_error = (\<lambda>sz. None), save_error = (\<lambda>fp. None)\<rparr>"
  have f: "files ?w ''Logo_Rounded.png'' = None" by simp
  from missing_input_is_reported [OF f] f show ?thesis by simp
qed

text \<open>
  Claim C7. Whatever step fails, opening the file, allocating the canvas, compositing
  (which also decodes the pixel data) or saving, \<open>add_margin\<close> catches the exception and
  returns normally, having printed one line, \<open>Error processing image: \<close> followed by the
  text of the exception. The line has the same form for every exception; the failed run
  prints nothing else and touches no file but the destination, so nothing is retried.
\<close>

theorem failures_are_caught_and_reported:
  "(\<forall>e. Image_open w ''Logo_Rounded.png'' = Inl e \<longrightarrow>
        add_margin w = print (''Error processing image: '' @ str e) w)
   \<and> (\<forall>img mw mh e.
        Image_open w ''Logo_Rounded.png'' = Inr img \<and>
        int_mul_0_2 (xsize img) = Inr mw \<and> int_mul_0_2 (ysize img) = Inr mh \<and>
        Image_new w RGBA (xsize img + 2 * mw, ysize img + 2 * mh) (0, 0, 0, 0) = Inl e \<longrightarrow>
        add_margin w = print (''Error processing image: '' @ str e) w)
   \<and> (\<forall>img mw mh new_img e.
        Image_open w ''Logo_Rounded.png'' = Inr img \<and>
        int_mul_0_2 (xsize img) = Inr mw \<and> int_mul_0_2 (ysize img) = Inr mh \<and>
        Image_new w RGBA (xsize img + 2 * mw, ysize img + 2 * mh) (0, 0, 0, 0) = Inr new_img \<and>
        paste new_img img (mw, mh) img = Inl e \<longrightarrow>
        add_margin w = print (''Error processing image: '' @ str e) w)
   \<and> (\<forall>img mw mh new_img pasted e w'.
        Image_open w ''Logo_Rounded.png'' = Inr img \<and>
        int_mul_0_2 (xsize img) = Inr mw \<and> int_mul_0_2 (ysize img) = Inr mh \<and>
        Image_new w RGBA (xsize img + 2 * mw, ysize img + 2 * mh) (0, 0, 0, 0) = Inr new_img \<and>
        paste new_img img (mw, mh) img = Inr pasted \<and>
        save w pasted ''Logo_Rounded_with_margin.png'' = (Inl e, w') \<longrightarrow>
        add_margin w = print (''Error processing image: '' @ str e) w')
   \<and> (\<forall>e w'. add_margin_try w = (Inl e, w') \<longrightarrow>
        add_margin w = print (''Error processing image: '' @ str e) w'
        \<and> stdout w' = stdout w
        \<and> (\<forall>fp. fp \<noteq> ''Logo_Rounded_with_margin.png'' \<longrightarrow> files w' fp = files w fp))"
proof (intro conjI allI impI)
  fix e
  assume "Image_open w ''Logo_Rounded.png'' = Inl e"
  then show "add_margin w = print (''Error processing image: '' @ str e) w"
    by (simp add: add_margin_def add_margin_try_def)
next
  fix img mw mh e
  assume "Image_open w ''Logo_Rounded.png'' = Inr img \<and>
        int_mul_0_2 (xsize img) = Inr mw \<and> int_mul_0_2 (ysize img) = Inr mh \<and>
        Image_new w RGBA (xsize img + 2 * mw, ysize img + 2 * mh) (0, 0, 0, 0) = Inl e"
  then show "add_margin w = print (''Error processing image: '' @ str e) w"
    by (simp add: add_margin_def add_margin_try_def Let_def)
next
  fix img mw mh new_img e
  assume "Image_open w ''Logo_Rounded.png'' = Inr img \<and>
        int_mul_0_2 (xsize img) = Inr mw \<and> int_mul_0_2 (ysize img) = Inr mh \<and>
        Image_new w RGBA (xsize img + 2 * mw, ysize img + 2 * mh) (0, 0, 0, 0) = Inr new_img \<and>
        paste new_img img (mw, mh) img = Inl e"
  then show "add_margin w = print (''Error processing image: '' @ str e) w"
    by (simp add: add_margin_def add_margin_try_def Let_def)
next
  fix img mw mh new_img pasted e w'
  assume "Image_open w ''Logo_Rounded.png'' = Inr img \<and>
        int_mul_0_2 (xsize img) = Inr mw \<and> int_mul_0_2 (ysize img) = Inr mh \<and>
        Image_new w RGBA (xsize img + 2 * mw, ysize img + 2 * mh) (0, 0, 0, 0) = Inr new_img \<and>
        paste new_img img (mw, mh) img = Inr pasted \<and>
        save w pasted ''Logo_Rounded_with_margin.png'' = (Inl e, w')"
  then show "add_margin w = print (''Error processing image: '' @ str e) w'"
    by (simp add: add_margin_def add_margin_try_def Let_def)
next
  fix e w'
  assume t: "add_margin_try w = (Inl e, w')"
  then show "add_margin w = print (''Error processing image: '' @ str e) w'"
    by (simp add: add_margin_def)
  from t show "stdout w' = stdout w"
    by (auto simp: add_margin_try_def save_def Let_def
        split: sum.splits option.splits prod.splits)
next
  fix e w' fp
  assume t: "add_margin_try w = (Inl e, w')" and fp: "fp \<noteq> ''Logo_Rounded_with_margin.png''"
  then show "files w' fp = files w fp"
    by (auto simp: add_margin_try_def save_def Let_def
        split: sum.splits option.splits prod.splits)
qed

text \<open>A file that is not an image, and an allocation that runs out of memory.\<close>

theorem failures_are_caught_and_reported_witness:
  "Image_open \<lparr>files = [''Logo_Rounded.png'' \<mapsto> NotAnImage], stdout = [],
                new_error = (\<lambda>sz. None), save_error = (\<lambda>fp. None)\<rparr> ''Logo_Rounded.png'' =
     Inl (UnidentifiedImageError ''Logo_Rounded.png'')
   \<and> stdout (add_margin \<lparr>files = [''Logo_Rounded.png'' \<mapsto> NotAnImage], stdout = [],
                new_error = (\<lambda>sz. None), save_error = (\<lambda>fp. None)\<rparr>) =
       [''Error processing image: cannot identify image file '' @ repr ''Logo_Rounded.png'']
   \<and> Image_open ((world_with (solid RGBA 10 10 (255, 0, 0, 255)))\<lparr>new_error := (\<lambda>sz. Some MemoryError)\<rparr>)
         ''Logo_Rounded.png'' = Inr (solid RGBA 10 10 (255, 0, 0, 255))
   \<and> int_mul_0_2 (xsize (solid RGBA 10 10 (255, 0, 0, 255))) = Inr 2
   \<and> int_mul_0_2 (ysize (solid RGBA 10 10 (255, 0, 0, 255))) = Inr 2
   \<and> Image_new ((world_with (solid RGBA 10 10 (255, 0, 0, 255)))\<lparr>new_error := (\<lambda>sz. Some MemoryError)\<rparr>)
         RGBA (xsize (solid RGBA 10 10 (255, 0, 0, 255)) + 2 * 2,
               ysize (solid RGBA 10 10 (255, 0, 0, 255)) + 2 * 2) (0, 0, 0, 0) = Inl MemoryError
   \<and> stdout (add_margin
         ((world_with (solid RGBA 10 10 (255, 0, 0, 255)))\<lparr>new_error := (\<lambda>sz. Some MemoryError)\<rparr>)) =
       [''Error processing image: '']
   \<and> files (add_margin
         ((world_with (solid RGBA 10 10 (255, 0, 0, 255)))\<lparr>new_error := (\<lambda>sz. Some MemoryError)\<rparr>)) =
       files (world_with (solid RGBA 10 10 (255, 0, 0, 255)))"
proof -
  let ?g = "\<lparr>files = [''Logo_Rounded.png'' \<mapsto> NotAnImage], stdout = [],
             new_error = (\<lambda>sz. None), save_error = (\<lambda>fp. None)\<rparr>"
  let ?img = "solid RGBA 10 10 (255, 0, 0, 255)"
  let ?m = "(world_with ?img)\<lparr>new_error := (\<lambda>sz. Some MemoryError)\<rparr>"
  have g: "Image_open ?g ''Logo_Rounded.png'' = Inl (UnidentifiedImageError ''Logo_Rounded.png'')"
    by (simp add: Image_open_def)
  from failures_are_caught_and_reported [of ?g, THEN conjunct1, rule_format, OF g]
  have r1: "stdout (add_margin ?g) =
      [''Error processing image: cannot identify image file '' @ repr ''Logo_Rounded.png'']"
    by (simp add: print_def)
  have m: "Image_open ?m ''Logo_Rounded.png'' = Inr ?img"
    "int_mul_0_2 (xsize ?img) = Inr 2" "int_mul_0_2 (ysize ?img) = Inr 2"
    "Image_new ?m RGBA (xsize ?img + 2 * 2, ysize ?img + 2 * 2) (0, 0, 0, 0) = Inl MemoryError"
    by (simp_all add: Image_open_def decompression_bomb_check_def pixel_limit
        world_with_def solid_def int_mul_0_2_div5 Image_new_def)
  from m have m': "Image_open ?m ''Logo_Rounded.png'' = Inr ?img \<and>
      int_mul_0_2 (xsize ?img) = Inr 2 \<and> int_mul_0_2 (ysize ?img) = Inr 2 \<and>
      Image_new ?m RGBA (xsize ?img + 2 * 2, ysize ?img + 2 * 2) (0, 0, 0, 0) = Inl MemoryError"
    by blast
  from failures_are_caught_and_reported [of ?m, THEN conjunct2, THEN conjunct1, rule_format, OF m']
  have r2: "stdout (add_margin ?m) = [''Error processing image: '']"
    "files (add_margin ?m) = files (world_with ?img)"
    by (simp_all add: print_def world_with_def)
  from g r1 m r2 show ?thesis by blast
qed



subsection \<open>The pixel limit\<close>

text \<open>
  An image of 20000 by 9000 pixels is refused by \<open>Image.open\<close>, whatever its mode, and
  nothing is saved. The output for a source of 12000 by 12000 pixels has 16800 by 16800
  pixels: it is saved, but the script cannot be run on it again.
\<close>

lemma decompression_bomb_is_refused:
  "stdout (add_margin (world_with (solid m 20000 9000 p))) =
     [''Error processing image: Image size (180000000 pixels) exceeds limit of 178956970 pixels, could be decompression bomb DOS attack.'']"
  "saved_image (add_margin (world_with (solid m 20000 9000 p))) = None"
proof -
  have n: "str_int 180000000 = ''180000000''" "str_int 178956970 = ''178956970''"
    by (simp_all add: str_int.simps)
  have o: "Image_open (world_with (solid m 20000 9000 p)) ''Logo_Rounded.png'' =
      Inl (DecompressionBombError 180000000)"
    by (simp add: Image_open_def decompression_bomb_check_def pixel_limit world_with_def solid_def)
  then have t: "add_margin (world_with (solid m 20000 9000 p)) =
      print (''Error processing image: '' @ str (DecompressionBombError 180000000))
        (world_with (solid m 20000 9000 p))"
    by (simp add: add_margin_def add_margin_try_def)
  show "stdout (add_margin (world_with (solid m 20000 9000 p))) =
     [''Error processing image: Image size (180000000 pixels) exceeds limit of 178956970 pixels, could be decompression bomb DOS attack.'']"
    unfolding t by (simp add: print_def world_with_env pixel_limit n)
  show "saved_image (add_margin (world_with (solid m 20000 9000 p))) = None"
    unfolding t by (simp add: print_def saved_image_def world_with_def)
qed

lemma large_output_is_not_reopened:
  "\<exists>out. saved_image (add_margin (world_with (solid RGBA 12000 12000 p))) = Some out
     \<and> xsize out = 16800 \<and> ysize out = 16800
     \<and> Image_open (feed_back (add_margin (world_with (solid RGBA 12000 12000 p)))) ''Logo_Rounded.png'' =
         Inl (DecompressionBombError 282240000)
     \<and> saved_image (rerun (Suc 0) (world_with (solid RGBA 12000 12000 p))) = Some out"
proof -
  let ?img = "solid RGBA 12000 12000 p"
  have v: "valid_input (world_with ?img) ?img" by (simp add: valid_solid)
  have d: "xsize ?img = 12000" "ysize ?img = 12000" by (simp_all add: solid_def)
  have a: "new_error (world_with ?img)
      (xsize ?img + 2 * (xsize ?img div 5), ysize ?img + 2 * (ysize ?img div 5)) = None"
    by (simp add: world_with_env)
  have s: "save_error (world_with ?img) ''Logo_Rounded_with_margin.png'' = None"
    by (simp add: world_with_env)
  from run_valid [OF v a s] obtain out where
    r: "add_margin (world_with ?img) =
       (world_with ?img)\<lparr>files := (files (world_with ?img))(''Logo_Rounded_with_margin.png'' \<mapsto> ImageFile out),
         stdout := stdout (world_with ?img) @ [''Created new image with dimensions ''
                     @ str_int (xsize out) @ ''x'' @ str_int (ysize out)]\<rparr>"
    and o: "saved_image (add_margin (world_with ?img)) = Some out"
      "xsize out = 16800" "ysize out = 16800"
    unfolding d by auto
  let ?w = "feed_back (add_margin (world_with ?img))"
  have f: "files ?w ''Logo_Rounded.png'' = Some (ImageFile out)"
    unfolding r by (simp add: feed_back_def)
  have opn: "Image_open ?w ''Logo_Rounded.png'' = Inl (DecompressionBombError 282240000)"
    by (simp add: Image_open_def f o decompression_bomb_check_def pixel_limit)
  then have "add_margin ?w =
      print (''Error processing image: '' @ str (DecompressionBombError 282240000)) ?w"
    by (simp add: add_margin_def add_margin_try_def)
  then have "saved_image (add_margin ?w) = saved_image (add_margin (world_with ?img))"
    by (simp add: print_def saved_image_def feed_back_def)
  with o opn show ?thesis by simp
qed

end
